theory Spec2Isabelle
  imports Main "HOL-Library.Word"
begin

unbundle bit_operations_syntax

section \<open>The I2C to SD-card bridge (ATTINY1614_i2cSDCard_v14.ino)\<close>

text \<open>
  A shallow embedding of the interrupt-driven protocol engine of the sketch. Every global
  variable of the sketch is a field of the record \<open>state\<close>; every handler
  (\<open>AddressHostRead\<close>, \<open>AddressHostWrite\<close>, \<open>DataHostRead\<close>, \<open>DataHostWrite\<close>,
  \<open>Stop\<close>, \<open>SendResponse\<close>, the interrupt service routine) is a function on that record.
  The Arduino SD library is not part of the sketch: its answers are a parameter (the
  record \<open>gateway\<close>), and every call into it is appended to the field \<open>lib_calls\<close>.
\<close>

type_synonym u8 = "8 word"
type_synonym u16 = "16 word"
type_synonym u32 = "32 word"

subsection \<open>Command bytes and constants\<close>

text \<open>
  \<open>command\<close> is a C \<open>int\<close> that only ever holds 0 or a received byte; the character
  constants it is compared with are their ASCII codes. The counters \<open>ch\<close> and \<open>ptr\<close> are
  C \<open>int\<close>s too; they stay between -1 and 64, far from the 16-bit range of the AVR, and
  are modelled as integers.
\<close>

abbreviation (input) chr_A :: int where "chr_A \<equiv> 65"
abbreviation (input) chr_C :: int where "chr_C \<equiv> 67"
abbreviation (input) chr_D :: int where "chr_D \<equiv> 68"
abbreviation (input) chr_E :: int where "chr_E \<equiv> 69"
abbreviation (input) chr_F :: int where "chr_F \<equiv> 70"
abbreviation (input) chr_K :: int where "chr_K \<equiv> 75"
abbreviation (input) chr_L :: int where "chr_L \<equiv> 76"
abbreviation (input) chr_M :: int where "chr_M \<equiv> 77"
abbreviation (input) chr_Q :: int where "chr_Q \<equiv> 81"
abbreviation (input) chr_R :: int where "chr_R \<equiv> 82"
abbreviation (input) chr_S :: int where "chr_S \<equiv> 83"
abbreviation (input) chr_V :: int where "chr_V \<equiv> 86"
abbreviation (input) chr_W :: int where "chr_W \<equiv> 87"
abbreviation (input) chr_X :: int where "chr_X \<equiv> 88"

text \<open>\<open>const int Namelength = 64\<close>; the LED colours \<open>LEDoff\<close>, \<open>LEDgreen\<close>, \<open>LEDred\<close>.\<close>

abbreviation (input) Namelength :: int where "Namelength \<equiv> 64"
abbreviation (input) LEDoff :: int where "LEDoff \<equiv> 0"
abbreviation (input) LEDgreen :: int where "LEDgreen \<equiv> 1"
abbreviation (input) LEDred :: int where "LEDred \<equiv> 2"

subsection \<open>The SD library as seen by the sketch\<close>

text \<open>
  Modelled from the spec: the \<open>File\<close> objects of the external SD library (the
  "Filesystem Gateway"), which is not in the repository. A \<open>File\<close> converts to \<open>true\<close>
  when it is open; it has a name, a directory flag and a size; a file yields its bytes
  one by one through \<open>read()\<close> (then -1); a directory yields its entries in iteration
  order through \<open>openNextFile()\<close> (then a \<open>File\<close> that is not open); \<open>close()\<close>
  makes it convert to \<open>false\<close>.
\<close>

record dir_entry =
  entry_name :: "u8 list"
  entry_isdir :: bool
  entry_size :: u32

record File =
  isOpen :: bool
  isdir :: bool
  fname :: "u8 list"
  fsize :: u32
  remaining :: "dir_entry list"
  unread :: "u8 list"

definition noFile :: File where
  "noFile = \<lparr>isOpen = False, isdir = False, fname = [], fsize = 0, remaining = [], unread = []\<rparr>"

definition isDirectory :: "File \<Rightarrow> bool" where
  "isDirectory f = (isOpen f \<and> isdir f)"

definition size_of :: "File \<Rightarrow> u32" where
  "size_of f = (if isOpen f then fsize f else 0)"

definition close_file :: "File \<Rightarrow> File" where
  "close_file f = f\<lparr>isOpen := False\<rparr>"

definition entry_file :: "dir_entry \<Rightarrow> File" where
  "entry_file e = \<lparr>isOpen = True, isdir = entry_isdir e, fname = entry_name e,
     fsize = entry_size e, remaining = [], unread = []\<rparr>"

text \<open>\<open>openNextFile()\<close>: the next entry and the directory advanced past it.\<close>

definition openNextFile :: "File \<Rightarrow> File \<times> File" where
  "openNextFile d =
     (if \<not> isOpen d then (noFile, d)
      else case remaining d of
             [] \<Rightarrow> (noFile, d)
           | e # es \<Rightarrow> (entry_file e, d\<lparr>remaining := es\<rparr>))"

text \<open>\<open>read()\<close>: an \<open>int\<close>, the next byte or -1.\<close>

definition read_file :: "File \<Rightarrow> int \<times> File" where
  "read_file f =
     (if \<not> isOpen f then (- 1, f)
      else case unread f of
             [] \<Rightarrow> (- 1, f)
           | b # bs \<Rightarrow> (uint b, f\<lparr>unread := bs\<rparr>))"

datatype open_mode = O_READ | O_RDWR_CREAT_TRUNC | O_RDWR_CREAT_APPEND

datatype lib_call =
    Call_open "u8 list" open_mode
  | Call_exists "u8 list"
  | Call_mkdir "u8 list"
  | Call_rmdir "u8 list"
  | Call_remove "u8 list"
  | Call_close
  | Call_read
  | Call_write u8
  | Call_size
  | Call_openNextFile
  | Call_card_init
  | Call_volume_init
  | Call_begin

text \<open>
  The answers of the library. The card and its filesystem have a state of their own, so
  every answer may depend on the calls made so far (the first argument).
\<close>

record gateway =
  SD_begin :: "lib_call list \<Rightarrow> bool"
  SD_open :: "lib_call list \<Rightarrow> u8 list \<Rightarrow> open_mode \<Rightarrow> File"
  SD_exists :: "lib_call list \<Rightarrow> u8 list \<Rightarrow> bool"
  SD_mkdir :: "lib_call list \<Rightarrow> u8 list \<Rightarrow> bool"
  SD_rmdir :: "lib_call list \<Rightarrow> u8 list \<Rightarrow> bool"
  SD_remove :: "lib_call list \<Rightarrow> u8 list \<Rightarrow> bool"
  card_init :: "lib_call list \<Rightarrow> bool"
  card_type :: "lib_call list \<Rightarrow> u8"
  volume_init :: "lib_call list \<Rightarrow> bool"
  volume_fatType :: "lib_call list \<Rightarrow> u8"
  volume_blocksPerCluster :: "lib_call list \<Rightarrow> u32"
  volume_clusterCount :: "lib_call list \<Rightarrow> u32"

subsection \<open>The globals of the sketch\<close>

datatype dir_stream =
    DIR_STREAM_IDLE
  | DIR_STREAM_SEND_NAME
  | DIR_STREAM_SEND_SIZE
  | DIR_STREAM_SEND_TYPE_NEXT
  | DIR_STREAM_SEND_END

text \<open>The bits of \<open>TWI0.SSTATUS\<close> the interrupt routine tests.\<close>

record twi_status =
  APIF :: bool
  AP :: bool
  DIF :: bool
  DIR :: bool
  RXACK :: bool

text \<open>The values the sketch writes to \<open>TWI0.SCTRLB\<close>.\<close>

datatype twi_ctrlb =
    CTRLB_NONE
  | ACK_RESPONSE
  | NACK_RESPONSE
  | RESPONSE
  | COMPTRANS

text \<open>An array access outside the array: the C code performs it, the model records it.\<close>

datatype mem_fault =
    OutOfRangeStore string int u8
  | OutOfRangeLoad string int

record state =
  Filename :: "u8 list"
  Filesize :: u32
  volBlocks :: u32
  volClusters :: u32
  volFatType :: u8
  currentYear :: u16
  currentMonth :: u8
  currentDay :: u8
  currentHour :: u8
  currentMinute :: u8
  currentSecond :: u8
  rtc_buffer :: "u8 list"
  rtc_buffer_ptr :: u8
  myFile :: File
  dirList_currentDir :: File
  dirList_currentEntry :: File
  dirList_state :: dir_stream
  dirList_byteCounter :: u8
  dirList_filenameBuffer :: "u8 list"
  dirList_entrySize :: u32
  dirList_dirOpen :: bool
  command :: int
  ch :: int
  ptr :: int
  checknack :: bool
  SSTATUS :: twi_status
  SDATA :: u8
  SCTRLB :: twi_ctrlb
  LED :: int
  lib_calls :: "lib_call list"
  mem_faults :: "mem_fault list"

text \<open>The initialisers of the globals (clock: 1 January 2025, 00:00:00).\<close>

definition initial_state :: state where
  "initial_state =
     \<lparr>Filename = replicate 64 0, Filesize = 0, volBlocks = 0, volClusters = 0, volFatType = 0,
      currentYear = 2025, currentMonth = 1, currentDay = 1,
      currentHour = 0, currentMinute = 0, currentSecond = 0,
      rtc_buffer = [0, 0, 0, 0, 0, 0], rtc_buffer_ptr = 0,
      myFile = noFile, dirList_currentDir = noFile, dirList_currentEntry = noFile,
      dirList_state = DIR_STREAM_IDLE, dirList_byteCounter = 0,
      dirList_filenameBuffer = replicate 13 0, dirList_entrySize = 0, dirList_dirOpen = False,
      command = 0, ch = 0, ptr = 0, checknack = False,
      SSTATUS = \<lparr>APIF = False, AP = False, DIF = False, DIR = False, RXACK = False\<rparr>,
      SDATA = 0, SCTRLB = CTRLB_NONE, LED = LEDoff, lib_calls = [], mem_faults = []\<rparr>"

subsection \<open>Small helpers: LED, library calls, C strings\<close>

definition LightLED :: "int \<Rightarrow> state \<Rightarrow> state" where
  "LightLED colour s = s\<lparr>LED := colour\<rparr>"

definition called :: "lib_call \<Rightarrow> state \<Rightarrow> state" where
  "called c s = s\<lparr>lib_calls := lib_calls s @ [c]\<rparr>"

text \<open>\<open>strlen\<close> of a character array, and the string up to the terminator.\<close>

definition c_str :: "u8 list \<Rightarrow> u8 list" where
  "c_str buf = takeWhile (\<lambda>c. c \<noteq> 0) buf"

definition strlen :: "u8 list \<Rightarrow> nat" where
  "strlen buf = length (c_str buf)"

text \<open>\<open>strrchr(name, '/')\<close>, then the part after it, or the whole name.\<close>

definition baseName :: "u8 list \<Rightarrow> u8 list" where
  "baseName name =
     (if 47 \<in> set name then rev (takeWhile (\<lambda>c. c \<noteq> 47) (rev name)) else name)"

text \<open>
  \<open>memset(dirList_filenameBuffer, 0, 13)\<close> followed by
  \<open>strncpy(dirList_filenameBuffer, baseName, 12)\<close>.
\<close>

definition capture_name :: "File \<Rightarrow> u8 list" where
  "capture_name e =
     (let b = take 12 (baseName (c_str (fname e))) in b @ replicate (13 - length b) 0)"

text \<open>\<open>Filename[i] = v\<close> on the 64-byte array.\<close>

definition store_Filename :: "int \<Rightarrow> u8 \<Rightarrow> state \<Rightarrow> state" where
  "store_Filename i v s =
     (if 0 \<le> i \<and> i < Namelength then s\<lparr>Filename := (Filename s)[nat i := v]\<rparr>
      else s\<lparr>mem_faults := mem_faults s @ [OutOfRangeStore ''Filename'' i v]\<rparr>)"

text \<open>
  \<open>Filebytes[i]\<close>: the union overlays the 4 bytes of \<open>Filesize\<close>, least significant
  byte first on the AVR.
\<close>

definition Filebytes :: "state \<Rightarrow> int \<Rightarrow> u8 option" where
  "Filebytes s i =
     (if 0 \<le> i \<and> i < 4 then Some (ucast (drop_bit (8 * nat i) (Filesize s))) else None)"

subsection \<open>Address interrupts\<close>

definition AddressHostRead :: "state \<Rightarrow> bool \<times> state" where
  "AddressHostRead s =
     (True, if command s = chr_V \<or> command s = chr_S then s\<lparr>ptr := 0\<rparr> else s)"

text \<open>
  The block that appears in both \<open>AddressHostWrite\<close> and \<open>Stop\<close>:
  \<^verbatim>\<open>if (dirList_dirOpen) { if (dirList_currentEntry) dirList_currentEntry.close();
     dirList_currentDir.close(); dirList_dirOpen = false; }\<close>
\<close>

definition dirList_cleanup :: "state \<Rightarrow> state" where
  "dirList_cleanup s =
     (if dirList_dirOpen s then
        let s1 = (if isOpen (dirList_currentEntry s)
                  then called Call_close
                         (s\<lparr>dirList_currentEntry := close_file (dirList_currentEntry s)\<rparr>)
                  else s);
            s2 = called Call_close (s1\<lparr>dirList_currentDir := close_file (dirList_currentDir s1)\<rparr>)
        in s2\<lparr>dirList_dirOpen := False\<rparr>
      else s)"

definition AddressHostWrite :: "state \<Rightarrow> bool \<times> state" where
  "AddressHostWrite s =
     (let s1 = s\<lparr>command := 0, ch := 0, ptr := 0, rtc_buffer_ptr := 0\<rparr>;
          s2 = LightLED LEDoff s1;
          s3 = dirList_cleanup s2
      in (True, s3\<lparr>dirList_state := DIR_STREAM_IDLE, dirList_byteCounter := 0\<rparr>))"

subsection \<open>Data interrupt, host reading: \<open>DataHostRead\<close>\<close>

text \<open>
  The type byte and the name capture shared by the cases \<open>DIR_STREAM_IDLE\<close> and
  \<open>DIR_STREAM_SEND_TYPE_NEXT\<close> (\<open>'D'\<close> is 68, \<open>'F'\<close> is 70).
\<close>

definition type_byte :: "File \<Rightarrow> u8" where
  "type_byte e = (if isDirectory e then 68 else 70)"

definition start_entry :: "state \<Rightarrow> u8 \<times> state" where
  "start_entry s =
     (type_byte (dirList_currentEntry s),
      s\<lparr>dirList_filenameBuffer := capture_name (dirList_currentEntry s),
        dirList_state := DIR_STREAM_SEND_NAME, dirList_byteCounter := 0\<rparr>)"

text \<open>
  \<open>dirList_currentEntry = dirList_currentDir.openNextFile()\<close>.
\<close>

definition next_entry :: "state \<Rightarrow> state" where
  "next_entry s =
     (let (e, d) = openNextFile (dirList_currentDir s)
      in called Call_openNextFile (s\<lparr>dirList_currentEntry := e, dirList_currentDir := d\<rparr>))"

definition close_currentDir :: "state \<Rightarrow> state" where
  "close_currentDir s =
     called Call_close (s\<lparr>dirList_currentDir := close_file (dirList_currentDir s)\<rparr>)"

definition close_currentEntry :: "state \<Rightarrow> state" where
  "close_currentEntry s =
     called Call_close (s\<lparr>dirList_currentEntry := close_file (dirList_currentEntry s)\<rparr>)"

text \<open>
  The \<open>switch (dirList_state)\<close> of the \<open>'L'\<close> branch: the byte \<open>dataToSend\<close> and the
  state after it. (The size bytes are sent with the counter at 0 to 3, so the shift
  \<open>8 * dirList_byteCounter\<close> stays below the 32 bits of \<open>dirList_entrySize\<close>.)
\<close>

definition dirList_switch :: "gateway \<Rightarrow> state \<Rightarrow> u8 \<times> state" where
  "dirList_switch gw s =
     (case dirList_state s of
        DIR_STREAM_IDLE \<Rightarrow>
          (let d = SD_open gw (lib_calls s) (Filename s) O_READ;
               s1 = called (Call_open (Filename s) O_READ) (s\<lparr>dirList_currentDir := d\<rparr>)
           in if \<not> isOpen (dirList_currentDir s1) \<or> \<not> isDirectory (dirList_currentDir s1) then
                let s2 = (if isOpen (dirList_currentDir s1) then close_currentDir s1 else s1)
                in (0xFF, s2\<lparr>dirList_dirOpen := False\<rparr>)
              else
                let s2 = next_entry (s1\<lparr>dirList_dirOpen := True\<rparr>)
                in if \<not> isOpen (dirList_currentEntry s2) then
                     (0xFF, (close_currentDir s2)\<lparr>dirList_dirOpen := False\<rparr>)
                   else start_entry s2)
      | DIR_STREAM_SEND_NAME \<Rightarrow>
          (if unat (dirList_byteCounter s) < strlen (dirList_filenameBuffer s) then
             (dirList_filenameBuffer s ! unat (dirList_byteCounter s),
              s\<lparr>dirList_byteCounter := dirList_byteCounter s + 1\<rparr>)
           else
             (0, s\<lparr>dirList_entrySize :=
                      (if isDirectory (dirList_currentEntry s) then 0
                       else size_of (dirList_currentEntry s)),
                    dirList_state := DIR_STREAM_SEND_SIZE, dirList_byteCounter := 0\<rparr>))
      | DIR_STREAM_SEND_SIZE \<Rightarrow>
          (let dataToSend = ucast (drop_bit (8 * unat (dirList_byteCounter s)) (dirList_entrySize s));
               s1 = s\<lparr>dirList_byteCounter := dirList_byteCounter s + 1\<rparr>
           in if dirList_byteCounter s1 \<ge> 4 then
                let s2 = next_entry (close_currentEntry s1)
                in if isOpen (dirList_currentEntry s2) then
                     (dataToSend, s2\<lparr>dirList_state := DIR_STREAM_SEND_TYPE_NEXT\<rparr>)
                   else
                     (dataToSend, (close_currentDir s2)\<lparr>dirList_dirOpen := False,
                                     dirList_state := DIR_STREAM_SEND_END\<rparr>)
              else (dataToSend, s1))
      | DIR_STREAM_SEND_TYPE_NEXT \<Rightarrow> start_entry s
      | DIR_STREAM_SEND_END \<Rightarrow> (0xFF, s\<lparr>dirList_state := DIR_STREAM_IDLE\<rparr>))"

text \<open>The whole \<open>'L'\<close> branch: the switch, the data register, the LED, \<open>ptr\<close>.\<close>

definition dirList_read :: "gateway \<Rightarrow> state \<Rightarrow> state" where
  "dirList_read gw s =
     (let (dataToSend, s1) = dirList_switch gw s;
          s2 = s1\<lparr>SDATA := dataToSend\<rparr>;
          s3 = (if dirList_state s2 \<noteq> DIR_STREAM_IDLE then LightLED LEDgreen s2
                else LightLED LEDoff s2)
      in s3\<lparr>ptr := (if dirList_state s3 \<noteq> DIR_STREAM_IDLE then 1 else 0)\<rparr>)"

text \<open>The \<open>'V'\<close> branch.\<close>

definition volume_read :: "gateway \<Rightarrow> state \<Rightarrow> state" where
  "volume_read gw s =
     (if ptr s = 0 then
        (let ok = volume_init gw (lib_calls s);
             s1 = called Call_volume_init s
         in if ok then
              s1\<lparr>volFatType := volume_fatType gw (lib_calls s1),
                 volBlocks := volume_blocksPerCluster gw (lib_calls s1),
                 volClusters := volume_clusterCount gw (lib_calls s1),
                 SDATA := 0x01, ptr := 1\<rparr>
            else s1\<lparr>SDATA := 0xFF, ptr := - 1\<rparr>)
      else if ptr s = 1 then s\<lparr>SDATA := volFatType s, ptr := ptr s + 1\<rparr>
      else if ptr s \<ge> 2 \<and> ptr s \<le> 5 then
        s\<lparr>SDATA := ucast (drop_bit (8 * nat (ptr s - 2)) (volBlocks s)), ptr := ptr s + 1\<rparr>
      else if ptr s \<ge> 6 \<and> ptr s \<le> 9 then
        s\<lparr>SDATA := ucast (drop_bit (8 * nat (ptr s - 6)) (volClusters s)), ptr := ptr s + 1\<rparr>
      else s\<lparr>SDATA := 0x00\<rparr>)"

text \<open>The \<open>'S'\<close> branch.\<close>

definition size_read :: "state \<Rightarrow> state" where
  "size_read s =
     (if ptr s < 4 then
        (let s1 = (if ptr s = 0 then called Call_size (s\<lparr>Filesize := size_of (myFile s)\<rparr>) else s);
             s2 = (case Filebytes s1 (3 - ptr s1) of
                     Some b \<Rightarrow> s1\<lparr>SDATA := b\<rparr>
                   | None \<Rightarrow> s1\<lparr>mem_faults := mem_faults s1 @
                                  [OutOfRangeLoad ''Filebytes'' (3 - ptr s1)]\<rparr>)
         in s2\<lparr>ptr := ptr s2 + 1\<rparr>)
      else s\<lparr>SDATA := 0\<rparr>)"

definition DataHostRead :: "gateway \<Rightarrow> state \<Rightarrow> state" where
  "DataHostRead gw s =
     (if command s = chr_R then
        (let (r, f) = read_file (myFile s)
         in called Call_read (s\<lparr>myFile := f, SDATA := word_of_int r\<rparr>))
      else if command s = chr_E then
        called (Call_exists (Filename s))
          (s\<lparr>SDATA := (if SD_exists gw (lib_calls s) (Filename s) then 1 else 0)\<rparr>)
      else if command s = chr_K then
        (let checkFile = SD_open gw (lib_calls s) (Filename s) O_READ;
             s1 = called (Call_open (Filename s) O_READ) s;
             s2 = (if isOpen checkFile \<and> isDirectory checkFile
                   then LightLED LEDgreen (s1\<lparr>SDATA := 1\<rparr>)
                   else LightLED LEDred (s1\<lparr>SDATA := 0\<rparr>))
         in if isOpen checkFile then called Call_close s2 else s2)
      else if command s = chr_L then dirList_read gw s
      else if command s = chr_M then
        called (Call_mkdir (Filename s))
          (s\<lparr>SDATA := (if SD_mkdir gw (lib_calls s) (Filename s) then 1 else 0)\<rparr>)
      else if command s = chr_Q then
        (let ok = card_init gw (lib_calls s);
             s1 = called Call_card_init s
         in if ok then s1\<lparr>SDATA := card_type gw (lib_calls s1)\<rparr> else s1)
      else if command s = chr_V then volume_read gw s
      else if command s = chr_D then
        called (Call_rmdir (Filename s))
          (s\<lparr>SDATA := (if SD_rmdir gw (lib_calls s) (Filename s) then 1 else 0)\<rparr>)
      else if command s = chr_X then
        called (Call_remove (Filename s))
          (s\<lparr>SDATA := (if SD_remove gw (lib_calls s) (Filename s) then 1 else 0)\<rparr>)
      else if command s = chr_S then size_read s
      else s\<lparr>SDATA := 0\<rparr>)"

subsection \<open>Data interrupt, host writing: \<open>DataHostWrite\<close>\<close>

text \<open>
  \<open>myFile = SD.open(Filename, mode)\<close> followed by the check
  \<open>if (myFile) ... else { LightLED(LEDred); command = 0; return false; }\<close>.
\<close>

definition open_myFile :: "gateway \<Rightarrow> open_mode \<Rightarrow> state \<Rightarrow> bool \<times> state" where
  "open_myFile gw mode s =
     (let f = SD_open gw (lib_calls s) (Filename s) mode;
          s1 = called (Call_open (Filename s) mode) (s\<lparr>myFile := f\<rparr>)
      in if isOpen (myFile s1) then (True, LightLED LEDgreen s1)
         else (False, (LightLED LEDred s1)\<lparr>command := 0\<rparr>))"

definition DataHostWrite :: "gateway \<Rightarrow> state \<Rightarrow> bool \<times> state" where
  "DataHostWrite gw s =
     (let received_data = SDATA s in
      if command s = 0 then
        (let s1 = s\<lparr>command := uint received_data, ptr := 0, ch := 0, rtc_buffer_ptr := 0\<rparr>
         in if command s1 = chr_Q \<or> command s1 = chr_V \<or> command s1 = chr_K \<or>
               command s1 = chr_M \<or> command s1 = chr_D \<or> command s1 = chr_X \<or>
               command s1 = chr_L \<or> command s1 = chr_E \<or> command s1 = chr_C \<or>
               command s1 = chr_F then (True, s1)
            else if command s1 = chr_W then open_myFile gw O_RDWR_CREAT_TRUNC s1
            else if command s1 = chr_R \<or> command s1 = chr_S then open_myFile gw O_READ s1
            else if command s1 = chr_A then open_myFile gw O_RDWR_CREAT_APPEND s1
            else (False, s1\<lparr>command := 0\<rparr>))
      else if command s = chr_F then
        (if ch s < Namelength then
           (let s1 = store_Filename (ch s) received_data s;
                s2 = s1\<lparr>ch := ch s1 + 1\<rparr>
            in (True, store_Filename (ch s2) 0 s2))
         else (False, s))
      else if command s = chr_W \<or> command s = chr_A then
        (if isOpen (myFile s) then (True, called (Call_write received_data) s)
         else (False, LightLED LEDred s))
      else if command s = chr_C then
        (if rtc_buffer_ptr s < 6 then
           (True, s\<lparr>rtc_buffer := (rtc_buffer s)[unat (rtc_buffer_ptr s) := received_data],
                    rtc_buffer_ptr := rtc_buffer_ptr s + 1\<rparr>)
         else (False, s))
      else (False, s))"

subsection \<open>Stop interrupt: \<open>Stop\<close>\<close>

text \<open>
  The year of the clock-set command: \<open>uint16_t year_rx = (yy < 80) ? (2000 + yy) : (1900 + yy)\<close>.
\<close>

definition year_rx :: "u8 \<Rightarrow> u16" where
  "year_rx yy = (if yy < 80 then 2000 + ucast yy else 1900 + ucast yy)"

text \<open>The validation of the six received bytes (\<open>YY MM DD HH MM SS\<close>).\<close>

definition clock_valid :: "u8 list \<Rightarrow> bool" where
  "clock_valid buf =
     (buf ! 1 \<ge> 1 \<and> buf ! 1 \<le> 12 \<and> buf ! 2 \<ge> 1 \<and> buf ! 2 \<le> 31 \<and> buf ! 3 \<le> 23 \<and>
      buf ! 4 \<le> 59 \<and> buf ! 5 \<le> 59 \<and> year_rx (buf ! 0) \<ge> 1980)"

text \<open>
  The block \<open>if (command == 'C' && rtc_buffer_ptr == 6) { ... }\<close>. The LED is lit green
  or red, \<open>delay(50)\<close> passes, and the LED is switched off.
\<close>

definition clock_commit :: "state \<Rightarrow> state" where
  "clock_commit s =
     (if command s = chr_C \<and> rtc_buffer_ptr s = 6 then
        (if clock_valid (rtc_buffer s) then
           LightLED LEDoff (LightLED LEDgreen
             (s\<lparr>currentYear := year_rx (rtc_buffer s ! 0),
                currentMonth := rtc_buffer s ! 1,
                currentDay := rtc_buffer s ! 2,
                currentHour := rtc_buffer s ! 3,
                currentMinute := rtc_buffer s ! 4,
                currentSecond := rtc_buffer s ! 5\<rparr>))
         else LightLED LEDoff (LightLED LEDred s))
      else s)"

text \<open>
  \<open>if (myFile && (command == 'W' || command == 'R' || command == 'A' || command == 'S'))
  { myFile.close(); LightLED(LEDoff); }\<close>
\<close>

definition close_myFile :: "state \<Rightarrow> state" where
  "close_myFile s =
     (if isOpen (myFile s) \<and>
         (command s = chr_W \<or> command s = chr_R \<or> command s = chr_A \<or> command s = chr_S)
      then LightLED LEDoff (called Call_close (s\<lparr>myFile := close_file (myFile s)\<rparr>))
      else s)"

definition Stop :: "state \<Rightarrow> state" where
  "Stop s =
     (let s1 = s\<lparr>checknack := False\<rparr>;
          s2 = clock_commit s1;
          s3 = close_myFile s2;
          s4 = dirList_cleanup s3;
          s5 = s4\<lparr>dirList_state := DIR_STREAM_IDLE, dirList_byteCounter := 0\<rparr>
      in s5\<lparr>command := 0, ch := 0, ptr := 0, rtc_buffer_ptr := 0\<rparr>)"

subsection \<open>The interrupt service routine\<close>

definition SendResponse :: "bool \<Rightarrow> state \<Rightarrow> state" where
  "SendResponse succeed s =
     (if succeed then s\<lparr>SCTRLB := ACK_RESPONSE\<rparr> else s\<lparr>SCTRLB := NACK_RESPONSE\<rparr>)"

definition ISR :: "gateway \<Rightarrow> state \<Rightarrow> state" where
  "ISR gw s =
     (if APIF (SSTATUS s) \<and> AP (SSTATUS s) then
        (let (succeed, s1) = (if DIR (SSTATUS s) then AddressHostRead s else AddressHostWrite s)
         in SendResponse succeed s1)
      else if DIF (SSTATUS s) then
        (if DIR (SSTATUS s) then
           (let s1 = (if RXACK (SSTATUS s) \<and> checknack s then s\<lparr>checknack := False\<rparr>
                      else (DataHostRead gw s)\<lparr>checknack := True\<rparr>)
            in s1\<lparr>SCTRLB := RESPONSE\<rparr>)
         else
           (let (succeed, s1) = DataHostWrite gw s in SendResponse succeed s1))
      else if APIF (SSTATUS s) \<and> \<not> AP (SSTATUS s) then (Stop s)\<lparr>SCTRLB := COMPTRANS\<rparr>
      else s)"

subsection \<open>Start-up\<close>

text \<open>
  \<open>setup()\<close> ends in \<open>while (1);\<close> when the card or its volume cannot be initialised:
  then it never returns and the result is \<open>None\<close>. Otherwise the volume information is
  cached and the LED is switched off. (Pin modes, \<open>I2CSetup\<close> and the registration of the
  timestamp callback have no effect on the modelled state.)
\<close>

definition setup_sketch :: "gateway \<Rightarrow> state option" where
  "setup_sketch gw =
     (let s0 = LightLED LEDgreen initial_state;
          begun = SD_begin gw (lib_calls s0);
          s1 = called Call_begin s0
      in if \<not> begun then None
         else
           let ok = volume_init gw (lib_calls s1);
               s2 = called Call_volume_init s1
           in if \<not> ok then None
              else Some (LightLED LEDoff
                     (s2\<lparr>volFatType := volume_fatType gw (lib_calls s2),
                        volBlocks := volume_blocksPerCluster gw (lib_calls s2),
                        volClusters := volume_clusterCount gw (lib_calls s2)\<rparr>)))"

subsection \<open>Bus events\<close>

text \<open>
  What the TWI peripheral does before it raises the interrupt: it sets the status bits,
  and for a byte written by the host it loads the byte into the data register (the sketch
  reads it from there). \<open>ByteReadRequested nack\<close> is the data interrupt in the read
  direction; \<open>nack\<close> is the \<open>RXACK\<close> bit, set when the host did not acknowledge the
  previous byte.
\<close>

datatype bus_event =
    AddressWrite
  | AddressRead
  | ByteWritten u8
  | ByteReadRequested bool
  | StopCondition

definition raise_event :: "bus_event \<Rightarrow> state \<Rightarrow> state" where
  "raise_event e s =
     (case e of
        AddressWrite \<Rightarrow>
          s\<lparr>SSTATUS := \<lparr>APIF = True, AP = True, DIF = False, DIR = False, RXACK = False\<rparr>\<rparr>
      | AddressRead \<Rightarrow>
          s\<lparr>SSTATUS := \<lparr>APIF = True, AP = True, DIF = False, DIR = True, RXACK = False\<rparr>\<rparr>
      | ByteWritten b \<Rightarrow>
          s\<lparr>SSTATUS := \<lparr>APIF = False, AP = False, DIF = True, DIR = False, RXACK = False\<rparr>,
            SDATA := b\<rparr>
      | ByteReadRequested nack \<Rightarrow>
          s\<lparr>SSTATUS := \<lparr>APIF = False, AP = False, DIF = True, DIR = True, RXACK = nack\<rparr>\<rparr>
      | StopCondition \<Rightarrow>
          s\<lparr>SSTATUS := \<lparr>APIF = True, AP = False, DIF = False, DIR = False, RXACK = False\<rparr>\<rparr>)"

definition on_event :: "gateway \<Rightarrow> bus_event \<Rightarrow> state \<Rightarrow> state" where
  "on_event gw e s = ISR gw (raise_event e s)"

fun run :: "gateway \<Rightarrow> bus_event list \<Rightarrow> state \<Rightarrow> state" where
  "run gw [] s = s"
| "run gw (e # es) s = run gw es (on_event gw e s)"

text \<open>
  The bytes put on the bus by \<open>n\<close> consecutive calls of \<open>DataHostRead\<close> (each one a
  read-byte request that is not absorbed), and the state after them.
\<close>

fun read_bytes :: "gateway \<Rightarrow> nat \<Rightarrow> state \<Rightarrow> u8 list \<times> state" where
  "read_bytes gw 0 s = ([], s)"
| "read_bytes gw (Suc n) s =
     (let s1 = DataHostRead gw s; (bs, s2) = read_bytes gw n s1 in (SDATA s1 # bs, s2))"

subsection \<open>The clock as the specification reads it\<close>

text \<open>The six clock fields as numbers: year, month, day, hour, minute, second.\<close>

definition clock_of :: "state \<Rightarrow> nat \<times> nat \<times> nat \<times> nat \<times> nat \<times> nat" where
  "clock_of s = (unat (currentYear s), unat (currentMonth s), unat (currentDay s),
     unat (currentHour s), unat (currentMinute s), unat (currentSecond s))"

text \<open>
  The validation in the words of the specification: the two-digit year is expanded as
  \<open>year < 80 \<rightarrow> 2000 + year\<close>, else \<open>1900 + year\<close>; month 1 to 12, day 1 to 31, hour at most
  23, minute and second at most 59, expanded year at least 1980.
\<close>

definition spec_year :: "nat \<Rightarrow> nat" where
  "spec_year yy = (if yy < 80 then 2000 + yy else 1900 + yy)"

definition spec_clock_valid :: "nat \<Rightarrow> nat \<Rightarrow> nat \<Rightarrow> nat \<Rightarrow> nat \<Rightarrow> nat \<Rightarrow> bool" where
  "spec_clock_valid yy mo dd hh mi ss =
     (1 \<le> mo \<and> mo \<le> 12 \<and> 1 \<le> dd \<and> dd \<le> 31 \<and> hh \<le> 23 \<and> mi \<le> 59 \<and> ss \<le> 59 \<and>
      1980 \<le> spec_year yy)"

subsection \<open>Sample cards and sample transactions\<close>

text \<open>
  Concrete answers of the library, used to run the engine on concrete transactions: a
  card on which every path opens as the given \<open>File\<close> and every operation succeeds, and
  an absent card on which everything fails.
\<close>

definition demo_file :: File where
  "demo_file = \<lparr>isOpen = True, isdir = False, fname = [65, 46, 84, 88, 84], fsize = 0x01020304,
     remaining = [], unread = [104, 105]\<rparr>"

definition demo_dir :: File where
  "demo_dir = \<lparr>isOpen = True, isdir = True, fname = [68, 73, 82], fsize = 0,
     remaining = [\<lparr>entry_name = [83, 85, 66], entry_isdir = True, entry_size = 0x55\<rparr>,
                  \<lparr>entry_name = [65, 46, 84, 88, 84], entry_isdir = False,
                    entry_size = 0x01020304\<rparr>],
     unread = []\<rparr>"

definition card_with :: "File \<Rightarrow> gateway" where
  "card_with f = \<lparr>SD_begin = (\<lambda>_. True), SD_open = (\<lambda>_ _ _. f), SD_exists = (\<lambda>_ _. True),
     SD_mkdir = (\<lambda>_ _. True), SD_rmdir = (\<lambda>_ _. True), SD_remove = (\<lambda>_ _. True), card_init = (\<lambda>_. True),
     card_type = (\<lambda>_. 3), volume_init = (\<lambda>_. True), volume_fatType = (\<lambda>_. 32),
     volume_blocksPerCluster = (\<lambda>_. 64), volume_clusterCount = (\<lambda>_. 0x0003C000)\<rparr>"

definition card_absent :: gateway where
  "card_absent = \<lparr>SD_begin = (\<lambda>_. False), SD_open = (\<lambda>_ _ _. noFile),
     SD_exists = (\<lambda>_ _. False), SD_mkdir = (\<lambda>_ _. False), SD_rmdir = (\<lambda>_ _. False), SD_remove = (\<lambda>_ _. False),
     card_init = (\<lambda>_. False), card_type = (\<lambda>_. 0), volume_init = (\<lambda>_. False),
     volume_fatType = (\<lambda>_. 0), volume_blocksPerCluster = (\<lambda>_. 0),
     volume_clusterCount = (\<lambda>_. 0)\<rparr>"

text \<open>
  The clock-set transaction of the specification's example, \<open>'C' 24 7 26 10 30 0\<close>
  (26 July 2024, 10:30:00), up to but without the stop; the same with month 13; and one
  cut short after three bytes.
\<close>

definition clock_set_events :: "bus_event list" where
  "clock_set_events = [AddressWrite, ByteWritten 67, ByteWritten 24, ByteWritten 7,
     ByteWritten 26, ByteWritten 10, ByteWritten 30, ByteWritten 0]"

definition clock_bad_events :: "bus_event list" where
  "clock_bad_events = [AddressWrite, ByteWritten 67, ByteWritten 24, ByteWritten 13,
     ByteWritten 26, ByteWritten 10, ByteWritten 30, ByteWritten 0]"

definition clock_short_events :: "bus_event list" where
  "clock_short_events = [AddressWrite, ByteWritten 67, ByteWritten 24, ByteWritten 7,
     ByteWritten 26]"

text \<open>An exists query answered with one byte, before the host's NACK is seen.\<close>

definition exists_events :: "bus_event list" where
  "exists_events = [AddressWrite, ByteWritten 69, AddressRead, ByteReadRequested False]"

subsection \<open>Whole transactions\<close>

text \<open>The status bits of a data interrupt in the write direction.\<close>

abbreviation (input) data_write_status :: twi_status where
  "data_write_status \<equiv> \<lparr>APIF = False, AP = False, DIF = True, DIR = False, RXACK = False\<rparr>"

text \<open>
  A clock-set transaction: address match for write, the command byte \<open>'C'\<close>, the data
  bytes, stop.
\<close>

definition clock_transaction :: "u8 list \<Rightarrow> bus_event list" where
  "clock_transaction bs = AddressWrite # ByteWritten 67 # map ByteWritten bs @ [StopCondition]"

subsection \<open>Response layouts as the specification reads them\<close>

text \<open>
  Byte \<open>i\<close> of the file-size response: the 32-bit size most significant byte first,
  then zeros.
\<close>

definition size_byte :: "u32 \<Rightarrow> nat \<Rightarrow> u8" where
  "size_byte sz i = (if i < 4 then ucast (drop_bit (8 * (3 - i)) sz) else 0)"

text \<open>A 32-bit value as 4 bytes, least significant byte first.\<close>

definition le32 :: "u32 \<Rightarrow> u8 list" where
  "le32 w = [ucast w, ucast (drop_bit 8 w), ucast (drop_bit 16 w), ucast (drop_bit 24 w)]"

text \<open>
  Byte \<open>i\<close> of a successful volume-info response: status 1, FAT type, blocks per cluster
  and cluster count (4 bytes each, least significant first), then zeros.
\<close>

definition volume_byte :: "u8 \<Rightarrow> u32 \<Rightarrow> u32 \<Rightarrow> nat \<Rightarrow> u8" where
  "volume_byte f b c i =
     (if i = 0 then 1 else if i = 1 then f
      else if i \<le> 5 then ucast (drop_bit (8 * (i - 2)) b)
      else if i \<le> 9 then ucast (drop_bit (8 * (i - 6)) c) else 0)"

text \<open>The library call made for \<open>'M'\<close> (mkdir), \<open>'D'\<close> (rmdir) and \<open>'X'\<close> (remove).\<close>

definition one_shot_call :: "int \<Rightarrow> u8 list \<Rightarrow> lib_call" where
  "one_shot_call c name =
     (if c = chr_M then Call_mkdir name else if c = chr_D then Call_rmdir name
      else Call_remove name)"

subsection \<open>More sample cards and transactions\<close>

text \<open>
  A card that is present while \<open>setup()\<close> runs (so the volume information is cached:
  FAT32, 64 blocks per cluster, 0x3C000 clusters) and is pulled out afterwards.
\<close>

definition card_pulled :: gateway where
  "card_pulled = \<lparr>SD_begin = (\<lambda>calls. calls = []), SD_open = (\<lambda>_ _ _. noFile),
     SD_exists = (\<lambda>_ _. False), SD_mkdir = (\<lambda>_ _. False), SD_rmdir = (\<lambda>_ _. False),
     SD_remove = (\<lambda>_ _. False), card_init = (\<lambda>_. False), card_type = (\<lambda>_. 0),
     volume_init = (\<lambda>calls. calls = [Call_begin]), volume_fatType = (\<lambda>_. 32),
     volume_blocksPerCluster = (\<lambda>_. 64), volume_clusterCount = (\<lambda>_. 0x0003C000)\<rparr>"

text \<open>The command byte and the switch to reading, for \<open>'S'\<close>, \<open>'V'\<close> and \<open>'Q'\<close>.\<close>

definition size_events :: "bus_event list" where
  "size_events = [AddressWrite, ByteWritten 83, AddressRead]"

definition volume_events :: "bus_event list" where
  "volume_events = [AddressWrite, ByteWritten 86, AddressRead]"

definition card_type_events :: "bus_event list" where
  "card_type_events = [AddressWrite, ByteWritten 81, AddressRead]"

text \<open>The engine after start-up with the card that is then pulled, asked for volume info.\<close>

definition volume_query_state :: state where
  "volume_query_state = run card_pulled volume_events (the (setup_sketch card_pulled))"

text \<open>
  A mkdir transaction in which the host reads two bytes (it acknowledges the first), and
  one in which it reads a single byte (the second request carries its NACK).
\<close>

definition mkdir_two_reads :: "bus_event list" where
  "mkdir_two_reads = [AddressWrite, ByteWritten 77, AddressRead, ByteReadRequested False,
     ByteReadRequested False, StopCondition]"

definition mkdir_one_read :: "bus_event list" where
  "mkdir_one_read = [AddressWrite, ByteWritten 77, AddressRead, ByteReadRequested False,
     ByteReadRequested True, StopCondition]"

subsection \<open>Handles of the directory listing\<close>

text \<open>
  The flag \<open>dirList_dirOpen\<close> tracks the two handles of the directory listing: either
  it is set and the stream is in the middle of a listing, or it is clear and neither the
  directory nor the entry handle is open. The initial state satisfies this and every
  interrupt preserves it (\<open>handles_tracked_run\<close> below).
\<close>

definition handles_tracked :: "state \<Rightarrow> bool" where
  "handles_tracked s =
     ((dirList_dirOpen s \<and> dirList_state s \<noteq> DIR_STREAM_IDLE \<and>
       dirList_state s \<noteq> DIR_STREAM_SEND_END) \<or>
      (\<not> dirList_dirOpen s \<and> \<not> isOpen (dirList_currentDir s) \<and>
       \<not> isOpen (dirList_currentEntry s)))"

subsection \<open>Sample transactions for the filename and the open file\<close>

text \<open>A filename-set command followed by 63 bytes \<open>'A'\<close> (a 64th is sent after it).\<close>

definition long_name_events :: "bus_event list" where
  "long_name_events = AddressWrite # ByteWritten 70 # map ByteWritten (replicate 63 65)"

text \<open>
  A write command with one data byte and no stop: the next event is a new address match
  for write, which supersedes the transaction.
\<close>

definition write_superseded :: "bus_event list" where
  "write_superseded = [AddressWrite, ByteWritten 87, ByteWritten 1]"

subsection \<open>The directory listing as the specification reads it\<close>

text \<open>
  For one entry: the type byte (\<open>'D'\<close> 68 for a directory, \<open>'F'\<close> 70 for a file), the base
  name cut to 12 characters, a zero byte, and the size as 4 bytes least significant
  first (0 for a directory). For a directory: its entries in iteration order, then 0xFF.
\<close>

definition entry_name_bytes :: "dir_entry \<Rightarrow> u8 list" where
  "entry_name_bytes e = take 12 (baseName (c_str (entry_name e)))"

definition entry_type :: "dir_entry \<Rightarrow> u8" where
  "entry_type e = (if entry_isdir e then 68 else 70)"

definition entry_listed_size :: "dir_entry \<Rightarrow> u32" where
  "entry_listed_size e = (if entry_isdir e then 0 else entry_size e)"

definition entry_bytes :: "dir_entry \<Rightarrow> u8 list" where
  "entry_bytes e = entry_type e # entry_name_bytes e @ [0] @ le32 (entry_listed_size e)"

definition listing_bytes :: "dir_entry list \<Rightarrow> u8 list" where
  "listing_bytes es = concat (map entry_bytes es) @ [0xFF]"

text \<open>
  In the middle of a listing: the entry \<open>e\<close> is open and \<open>es\<close> are the entries still to
  come. After a listing: the cursor is idle and no handle is open.
\<close>

definition listing_open :: "state \<Rightarrow> dir_entry \<Rightarrow> dir_entry list \<Rightarrow> bool" where
  "listing_open s e es =
     (command s = chr_L \<and> dirList_dirOpen s \<and> dirList_currentEntry s = entry_file e \<and>
      isOpen (dirList_currentDir s) \<and> remaining (dirList_currentDir s) = es)"

definition listing_done :: "state \<Rightarrow> bool" where
  "listing_done s =
     (dirList_state s = DIR_STREAM_IDLE \<and> \<not> dirList_dirOpen s \<and>
      \<not> isOpen (dirList_currentDir s) \<and> \<not> isOpen (dirList_currentEntry s))"

text \<open>The list command and the switch to reading.\<close>

definition list_events :: "bus_event list" where
  "list_events = [AddressWrite, ByteWritten 76, AddressRead]"

subsection \<open>Read-byte requests on the bus\<close>

text \<open>
  The bytes put on the bus by \<open>n\<close> read-byte requests that the host acknowledges (the
  interrupt routine serves each of them), and the state after them. \<open>with_bus\<close> sets the
  three fields of the state that the interrupt routine owns and \<open>DataHostRead\<close> neither
  reads nor writes.
\<close>

fun serve_reads :: "gateway \<Rightarrow> nat \<Rightarrow> state \<Rightarrow> u8 list \<times> state" where
  "serve_reads gw 0 s = ([], s)"
| "serve_reads gw (Suc n) s =
     (let s1 = on_event gw (ByteReadRequested False) s; (bs, s2) = serve_reads gw n s1
      in (SDATA s1 # bs, s2))"

definition with_bus :: "twi_status \<Rightarrow> bool \<Rightarrow> twi_ctrlb \<Rightarrow> state \<Rightarrow> state" where
  "with_bus x c z s = s\<lparr>SSTATUS := x, checknack := c, SCTRLB := z\<rparr>"

abbreviation (input) data_read_status :: twi_status where
  "data_read_status \<equiv> \<lparr>APIF = False, AP = False, DIF = True, DIR = True, RXACK = False\<rparr>"

section \<open>Properties\<close>

subsection \<open>Evaluation helpers\<close>

lemma list_update_Cons_numeral:
  "(x # xs)[numeral n := v] = x # xs[pred_numeral n := v]"
  by (simp add: numeral_eq_Suc)

lemmas engine_defs =
  AddressHostRead_def AddressHostWrite_def dirList_cleanup_def DataHostRead_def
  DataHostWrite_def open_myFile_def Stop_def clock_commit_def close_myFile_def
  SendResponse_def ISR_def raise_event_def on_event_def LightLED_def called_def
  store_Filename_def clock_valid_def year_rx_def

lemmas demo_defs =
  initial_state_def card_with_def card_absent_def demo_file_def demo_dir_def noFile_def

subsection \<open>The clock commit at stop\<close>

lemma year_rx_unat:
  "unat (year_rx yy) = (if unat yy < 80 then 2000 + unat yy else 1900 + unat yy)"
proof -
  have b: "unat yy < 256"
    using unsigned_less[of yy] by simp
  have u: "unat (ucast yy :: u16) = unat yy"
    by (simp add: unsigned_ucast_eq take_bit_nat_eq_self_iff) (use b in simp)
  have "unat (2000 + ucast yy :: u16) = 2000 + unat yy"
    using b u by (simp add: unat_add_lem[THEN iffD1])
  moreover have "unat (1900 + ucast yy :: u16) = 1900 + unat yy"
    using b u by (simp add: unat_add_lem[THEN iffD1])
  ultimately show ?thesis
    by (simp add: year_rx_def word_less_nat_alt)
qed

lemma clock_valid_spec:
  "clock_valid buf = spec_clock_valid (unat (buf ! 0)) (unat (buf ! 1)) (unat (buf ! 2))
     (unat (buf ! 3)) (unat (buf ! 4)) (unat (buf ! 5))"
  by (simp add: clock_valid_def spec_clock_valid_def word_le_nat_alt year_rx_unat spec_year_def)

lemma clock_of_clock_commit:
  "clock_of (clock_commit s) =
     (if command s = chr_C \<and> rtc_buffer_ptr s = 6 \<and> clock_valid (rtc_buffer s)
      then (unat (year_rx (rtc_buffer s ! 0)), unat (rtc_buffer s ! 1), unat (rtc_buffer s ! 2),
            unat (rtc_buffer s ! 3), unat (rtc_buffer s ! 4), unat (rtc_buffer s ! 5))
      else clock_of s)"
  by (simp add: clock_commit_def clock_of_def LightLED_def)

lemma clock_of_close_myFile: "clock_of (close_myFile s) = clock_of s"
  by (simp add: close_myFile_def clock_of_def LightLED_def called_def)

lemma clock_of_dirList_cleanup: "clock_of (dirList_cleanup s) = clock_of s"
  by (simp add: dirList_cleanup_def clock_of_def called_def Let_def)

lemma clock_of_Stop: "clock_of (Stop s) = clock_of (clock_commit s)"
proof -
  have "clock_of (Stop s) =
      clock_of (dirList_cleanup (close_myFile (clock_commit (s\<lparr>checknack := False\<rparr>))))"
    by (simp add: Stop_def Let_def clock_of_def)
  also have "\<dots> = clock_of (clock_commit (s\<lparr>checknack := False\<rparr>))"
    by (simp add: clock_of_dirList_cleanup clock_of_close_myFile)
  also have "\<dots> = clock_of (clock_commit s)"
    by (simp add: clock_of_clock_commit) (simp add: clock_of_def)
  finally show ?thesis .
qed

text \<open>
  Claim C2. At transaction stop the clock is updated if and only if the active command
  is clock-set (\<open>'C'\<close>), exactly 6 bytes were accepted and the values pass the validation
  of the specification; then the six fields are the expanded year and the five bytes
  received after it. In every other case (another command, fewer than 6 bytes, a value
  out of range) all six fields keep their prior values.
\<close>

theorem stop_commits_clock_iff_six_valid_bytes:
  "clock_of (Stop s) =
     (if command s = chr_C \<and> rtc_buffer_ptr s = 6 \<and>
         spec_clock_valid (unat (rtc_buffer s ! 0)) (unat (rtc_buffer s ! 1))
           (unat (rtc_buffer s ! 2)) (unat (rtc_buffer s ! 3)) (unat (rtc_buffer s ! 4))
           (unat (rtc_buffer s ! 5))
      then (spec_year (unat (rtc_buffer s ! 0)), unat (rtc_buffer s ! 1),
            unat (rtc_buffer s ! 2), unat (rtc_buffer s ! 3), unat (rtc_buffer s ! 4),
            unat (rtc_buffer s ! 5))
      else clock_of s)"
  by (simp add: clock_of_Stop clock_of_clock_commit clock_valid_spec year_rx_unat spec_year_def)

theorem stop_commits_clock_iff_six_valid_bytes_witness:
  "clock_of (Stop (run card_absent clock_set_events initial_state)) = (2024, 7, 26, 10, 30, 0) \<and>
   clock_of (Stop (run card_absent clock_bad_events initial_state)) = (2025, 1, 1, 0, 0, 0) \<and>
   clock_of (Stop (run card_absent clock_short_events initial_state)) = (2025, 1, 1, 0, 0, 0)"
  using stop_commits_clock_iff_six_valid_bytes [of "run card_absent clock_set_events initial_state"]
    stop_commits_clock_iff_six_valid_bytes [of "run card_absent clock_bad_events initial_state"]
    stop_commits_clock_iff_six_valid_bytes [of "run card_absent clock_short_events initial_state"]
  by (simp add: clock_set_events_def clock_bad_events_def clock_short_events_def engine_defs
      demo_defs Let_def list_update_Cons_numeral clock_of_def spec_clock_valid_def spec_year_def)

subsection \<open>The read request after a NACK\<close>

text \<open>
  Claim C5. A read-byte request that arrives with the host's NACK of the previous response
  byte while the flag \<open>checknack\<close> is set is absorbed: besides the status bits set by the
  peripheral, only the flag (cleared) and the control register change, so no response
  byte is produced, no cursor moves and the library is not called. Every other read-byte
  request runs \<open>DataHostRead\<close> and sets the flag; since the absorbed request clears the
  flag, the request after it is served again. The stop interrupt clears the flag.
\<close>

theorem phantom_read_request_absorbed_once:
  "(nack \<and> checknack s \<longrightarrow>
      on_event gw (ByteReadRequested nack) s =
        (raise_event (ByteReadRequested nack) s)\<lparr>checknack := False, SCTRLB := RESPONSE\<rparr>) \<and>
   (\<not> (nack \<and> checknack s) \<longrightarrow>
      on_event gw (ByteReadRequested nack) s =
        (DataHostRead gw (raise_event (ByteReadRequested nack) s))
          \<lparr>checknack := True, SCTRLB := RESPONSE\<rparr>) \<and>
   \<not> checknack (on_event gw StopCondition s)"
proof (intro conjI impI)
  assume "nack \<and> checknack s"
  then show "on_event gw (ByteReadRequested nack) s =
        (raise_event (ByteReadRequested nack) s)\<lparr>checknack := False, SCTRLB := RESPONSE\<rparr>"
    by (simp add: on_event_def ISR_def raise_event_def)
next
  assume "\<not> (nack \<and> checknack s)"
  then show "on_event gw (ByteReadRequested nack) s =
        (DataHostRead gw (raise_event (ByteReadRequested nack) s))
          \<lparr>checknack := True, SCTRLB := RESPONSE\<rparr>"
    by (auto simp add: on_event_def ISR_def raise_event_def)
next
  show "\<not> checknack (on_event gw StopCondition s)"
    by (simp add: on_event_def ISR_def raise_event_def Stop_def clock_commit_def
        close_myFile_def dirList_cleanup_def LightLED_def called_def Let_def)
qed

theorem phantom_read_request_absorbed_once_witness:
  "checknack (run card_absent exists_events initial_state) \<and>
   (let s = run card_absent exists_events initial_state;
        s1 = on_event card_absent (ByteReadRequested True) s;
        s2 = on_event card_absent (ByteReadRequested True) s1
    in SDATA s1 = SDATA s \<and> lib_calls s1 = lib_calls s \<and> ptr s1 = ptr s \<and> \<not> checknack s1 \<and>
       lib_calls s2 = lib_calls s @ [Call_exists (Filename s)] \<and> checknack s2)"
  using phantom_read_request_absorbed_once
      [of True "run card_absent exists_events initial_state" card_absent]
    phantom_read_request_absorbed_once
      [of True "on_event card_absent (ByteReadRequested True)
                 (run card_absent exists_events initial_state)" card_absent]
  by (simp add: exists_events_def engine_defs demo_defs Let_def)

subsection \<open>Clock-set data bytes\<close>

lemma run_append: "run gw (xs @ ys) s = run gw ys (run gw xs s)"
  by (induction xs arbitrary: s) simp_all


lemma extra_byte: 
  assumes "command s = chr_C" "rtc_buffer_ptr s = 6"
  shows "on_event gw (ByteWritten b) s =
     s\<lparr>SSTATUS := data_write_status, SDATA := b, SCTRLB := NACK_RESPONSE\<rparr>"
  using assms by (simp add: on_event_def ISR_def raise_event_def DataHostWrite_def SendResponse_def)

lemma extra_bytes:
  "command s = chr_C \<Longrightarrow> rtc_buffer_ptr s = 6 \<Longrightarrow> extra \<noteq> [] \<Longrightarrow>
   run gw (map ByteWritten extra) s =
     s\<lparr>SSTATUS := data_write_status, SDATA := last extra, SCTRLB := NACK_RESPONSE\<rparr>"
proof (induction extra arbitrary: s)
  case Nil
  then show ?case by simp
next
  case (Cons b bs)
  show ?case
  proof (cases "bs = []")
    case True
    then show ?thesis using Cons.prems by (simp add: extra_byte)
  next
    case False
    then show ?thesis
      using Cons.prems Cons.IH[of "on_event gw (ByteWritten b) s"]
      by (simp add: extra_byte)
  qed
qed

lemma clock_commit_bus:
  "clock_commit (s\<lparr>SDATA := y, SCTRLB := z\<rparr>) = (clock_commit s)\<lparr>SDATA := y, SCTRLB := z\<rparr>"
  by (simp add: clock_commit_def LightLED_def)

lemma close_myFile_bus:
  "close_myFile (s\<lparr>SDATA := y, SCTRLB := z\<rparr>) = (close_myFile s)\<lparr>SDATA := y, SCTRLB := z\<rparr>"
  by (auto simp add: close_myFile_def LightLED_def called_def)

lemma dirList_cleanup_bus:
  "dirList_cleanup (s\<lparr>SDATA := y, SCTRLB := z\<rparr>) =
     (dirList_cleanup s)\<lparr>SDATA := y, SCTRLB := z\<rparr>"
  by (simp add: dirList_cleanup_def called_def Let_def)

lemma Stop_bus:
  "Stop (s\<lparr>SDATA := y, SCTRLB := z\<rparr>) = (Stop s)\<lparr>SDATA := y, SCTRLB := z\<rparr>"
proof -
  have a: "(s\<lparr>SDATA := y, SCTRLB := z\<rparr>)\<lparr>checknack := False\<rparr> =
      (s\<lparr>checknack := False\<rparr>)\<lparr>SDATA := y, SCTRLB := z\<rparr>"
    by simp
  show ?thesis
    unfolding Stop_def Let_def a clock_commit_bus close_myFile_bus dirList_cleanup_bus
    by simp
qed

lemma stop_ignores_bus_registers:
  "on_event gw StopCondition (s\<lparr>SSTATUS := x, SDATA := y, SCTRLB := z\<rparr>) =
     (on_event gw StopCondition s)\<lparr>SDATA := y\<rparr>"
proof -
  let ?st = "\<lparr>APIF = True, AP = False, DIF = False, DIR = False, RXACK = False\<rparr>"
  have r: "raise_event StopCondition (s\<lparr>SSTATUS := x, SDATA := y, SCTRLB := z\<rparr>) =
      (s\<lparr>SSTATUS := ?st\<rparr>)\<lparr>SDATA := y, SCTRLB := z\<rparr>"
    by (simp add: raise_event_def)
  have i: "ISR gw (t\<lparr>SSTATUS := ?st\<rparr>) = (Stop (t\<lparr>SSTATUS := ?st\<rparr>))\<lparr>SCTRLB := COMPTRANS\<rparr>" for t
    by (simp add: ISR_def)
  have "on_event gw StopCondition (s\<lparr>SSTATUS := x, SDATA := y, SCTRLB := z\<rparr>) =
      ISR gw ((s\<lparr>SDATA := y, SCTRLB := z\<rparr>)\<lparr>SSTATUS := ?st\<rparr>)"
    by (simp add: on_event_def raise_event_def)
  also have "\<dots> = (Stop ((s\<lparr>SDATA := y, SCTRLB := z\<rparr>)\<lparr>SSTATUS := ?st\<rparr>))\<lparr>SCTRLB := COMPTRANS\<rparr>"
    by (rule i)
  also have "(s\<lparr>SDATA := y, SCTRLB := z\<rparr>)\<lparr>SSTATUS := ?st\<rparr> = (s\<lparr>SSTATUS := ?st\<rparr>)\<lparr>SDATA := y, SCTRLB := z\<rparr>"
    by simp
  also have "Stop ((s\<lparr>SSTATUS := ?st\<rparr>)\<lparr>SDATA := y, SCTRLB := z\<rparr>) =
      (Stop (s\<lparr>SSTATUS := ?st\<rparr>))\<lparr>SDATA := y, SCTRLB := z\<rparr>"
    by (rule Stop_bus)
  also have "((Stop (s\<lparr>SSTATUS := ?st\<rparr>))\<lparr>SDATA := y, SCTRLB := z\<rparr>)\<lparr>SCTRLB := COMPTRANS\<rparr> =
      ((Stop (s\<lparr>SSTATUS := ?st\<rparr>))\<lparr>SCTRLB := COMPTRANS\<rparr>)\<lparr>SDATA := y\<rparr>"
    by simp
  also have "(Stop (s\<lparr>SSTATUS := ?st\<rparr>))\<lparr>SCTRLB := COMPTRANS\<rparr> = ISR gw (s\<lparr>SSTATUS := ?st\<rparr>)"
    by (rule i[symmetric])
  also have "s\<lparr>SSTATUS := ?st\<rparr> = raise_event StopCondition s"
    by (simp add: raise_event_def)
  finally show ?thesis
    by (simp add: on_event_def)
qed

lemma clock_byte_accepted:
  assumes "command s = chr_C" "rtc_buffer_ptr s < 6"
  shows "on_event gw (ByteWritten b) s =
     s\<lparr>SSTATUS := data_write_status, SDATA := b,
       rtc_buffer := (rtc_buffer s)[unat (rtc_buffer_ptr s) := b],
       rtc_buffer_ptr := rtc_buffer_ptr s + 1, SCTRLB := ACK_RESPONSE\<rparr>"
  using assms by (simp add: on_event_def ISR_def raise_event_def DataHostWrite_def SendResponse_def)

lemma clock_command_accepted:
  "(let t = run gw [AddressWrite, ByteWritten 67] s
    in command t = chr_C \<and> rtc_buffer_ptr t = 0 \<and> rtc_buffer t = rtc_buffer s \<and> clock_of t = clock_of s)"
  by (simp add: on_event_def ISR_def raise_event_def DataHostWrite_def SendResponse_def 
     AddressHostWrite_def dirList_cleanup_def LightLED_def called_def Let_def clock_of_def)

lemma u8_of_nat_small: "k < 256 \<Longrightarrow> unat (of_nat k :: u8) = k"
  by (simp add: unat_of_nat)

lemma clock_bytes_accepted:
  "command s = chr_C \<Longrightarrow> rtc_buffer_ptr s = of_nat k \<Longrightarrow> k + length bs \<le> 6 \<Longrightarrow>
   length (rtc_buffer s) = 6 \<Longrightarrow>
   (let t = run gw (map ByteWritten bs) s
    in command t = chr_C \<and> rtc_buffer_ptr t = of_nat (k + length bs) \<and>
       rtc_buffer t = take k (rtc_buffer s) @ bs @ drop (k + length bs) (rtc_buffer s) \<and>
       clock_of t = clock_of s \<and> (bs \<noteq> [] \<longrightarrow> SDATA t = last bs))"
proof (induction bs arbitrary: s k)
  case Nil
  then show ?case by simp
next
  case (Cons b bs)
  have k: "k < 6" using Cons.prems by simp
  then have lt: "rtc_buffer_ptr s < 6" and un: "unat (rtc_buffer_ptr s) = k"
    using Cons.prems(2) by (simp_all add: word_less_nat_alt u8_of_nat_small)
  let ?s1 = "on_event gw (ByteWritten b) s"
  have s1: "?s1 = s\<lparr>SSTATUS := data_write_status, SDATA := b,
       rtc_buffer := (rtc_buffer s)[k := b],
       rtc_buffer_ptr := of_nat (Suc k), SCTRLB := ACK_RESPONSE\<rparr>"
    using clock_byte_accepted[OF Cons.prems(1) lt, of gw b] un Cons.prems(2) by simp
  have ih: "(let t = run gw (map ByteWritten bs) ?s1
    in command t = chr_C \<and> rtc_buffer_ptr t = of_nat (Suc k + length bs) \<and>
       rtc_buffer t = take (Suc k) (rtc_buffer ?s1) @ bs @ drop (Suc k + length bs) (rtc_buffer ?s1) \<and>
       clock_of t = clock_of ?s1 \<and> (bs \<noteq> [] \<longrightarrow> SDATA t = last bs))"
    apply (rule Cons.IH)
    using Cons.prems by (simp_all add: s1)
  have upd: "take (Suc k) ((rtc_buffer s)[k := b]) = take k (rtc_buffer s) @ [b]"
    using k Cons.prems(4) by (simp add: take_Suc_conv_app_nth)
  show ?case using ih Cons.prems(4) k
    by (simp add: Let_def s1 upd clock_of_def)
qed


lemma clock_of_stop_event:
  "clock_of (on_event gw StopCondition s) =
     (if command s = chr_C \<and> rtc_buffer_ptr s = 6 \<and>
         spec_clock_valid (unat (rtc_buffer s ! 0)) (unat (rtc_buffer s ! 1))
           (unat (rtc_buffer s ! 2)) (unat (rtc_buffer s ! 3)) (unat (rtc_buffer s ! 4))
           (unat (rtc_buffer s ! 5))
      then (spec_year (unat (rtc_buffer s ! 0)), unat (rtc_buffer s ! 1),
            unat (rtc_buffer s ! 2), unat (rtc_buffer s ! 3), unat (rtc_buffer s ! 4),
            unat (rtc_buffer s ! 5))
      else clock_of s)"
proof -
  let ?r = "raise_event StopCondition s"
  have r: "command ?r = command s" "rtc_buffer_ptr ?r = rtc_buffer_ptr s"
    "rtc_buffer ?r = rtc_buffer s" "clock_of ?r = clock_of s"
    by (simp_all add: raise_event_def clock_of_def)
  have "clock_of (on_event gw StopCondition s) = clock_of (Stop ?r)"
    by (simp add: on_event_def ISR_def raise_event_def clock_of_def)
  also have "\<dots> = clock_of (clock_commit ?r)"
    by (rule clock_of_Stop)
  finally show ?thesis
    by (simp add: clock_of_clock_commit clock_valid_spec year_rx_unat spec_year_def r)
qed


lemma after_six_clock_bytes:
  assumes "length bs = 6" "length (rtc_buffer s) = 6"
  shows "(let t = run gw (AddressWrite # ByteWritten 67 # map ByteWritten bs) s
    in command t = chr_C \<and> rtc_buffer_ptr t = 6 \<and> rtc_buffer t = bs \<and> clock_of t = clock_of s \<and>
       SDATA t = last bs)"
proof -
  let ?c = "run gw [AddressWrite, ByteWritten 67] s"
  have c: "command ?c = chr_C" "rtc_buffer_ptr ?c = of_nat 0" "rtc_buffer ?c = rtc_buffer s"
    "clock_of ?c = clock_of s"
    using clock_command_accepted[of gw s] by (simp_all add: Let_def)
  have "(let t = run gw (map ByteWritten bs) ?c
    in command t = chr_C \<and> rtc_buffer_ptr t = of_nat (0 + length bs) \<and>
       rtc_buffer t = take 0 (rtc_buffer ?c) @ bs @ drop (0 + length bs) (rtc_buffer ?c) \<and>
       clock_of t = clock_of ?c \<and> (bs \<noteq> [] \<longrightarrow> SDATA t = last bs))"
    by (rule clock_bytes_accepted) (use c assms in simp_all)
  moreover have "run gw (AddressWrite # ByteWritten 67 # map ByteWritten bs) s =
      run gw (map ByteWritten bs) ?c"
    by simp
  moreover have "bs \<noteq> []"
    using assms by auto
  ultimately show ?thesis
    using assms c by (simp add: Let_def)
qed

text \<open>
  Claim C10. While the clock-set command is active and 6 bytes have been accepted, every
  further written byte is rejected (NACK): apart from the registers of the peripheral
  nothing changes, so the 6-byte buffer and the count 6 stay as they are. Consequently a
  clock-set transaction with more than 6 data bytes ends, after the stop, in the state of
  the transaction with the first 6 bytes only (up to the data register, which holds the
  last byte received), and its clock is the one committed from those 6 bytes.
\<close>

theorem extra_clock_bytes_rejected_and_ignored:
  "(command s = chr_C \<and> rtc_buffer_ptr s = 6 \<longrightarrow>
      on_event gw (ByteWritten b) s =
        (raise_event (ByteWritten b) s)\<lparr>SCTRLB := NACK_RESPONSE\<rparr>) \<and>
   (length bs = 6 \<and> length (rtc_buffer s0) = 6 \<longrightarrow>
      run gw (clock_transaction (bs @ extra)) s0 =
        (run gw (clock_transaction bs) s0)\<lparr>SDATA := last (bs @ extra)\<rparr> \<and>
      clock_of (run gw (clock_transaction (bs @ extra)) s0) =
        (if spec_clock_valid (unat (bs ! 0)) (unat (bs ! 1)) (unat (bs ! 2)) (unat (bs ! 3))
              (unat (bs ! 4)) (unat (bs ! 5))
         then (spec_year (unat (bs ! 0)), unat (bs ! 1), unat (bs ! 2), unat (bs ! 3),
               unat (bs ! 4), unat (bs ! 5))
         else clock_of s0))"
proof (intro conjI impI)
  assume "command s = chr_C \<and> rtc_buffer_ptr s = 6"
  then show "on_event gw (ByteWritten b) s =
        (raise_event (ByteWritten b) s)\<lparr>SCTRLB := NACK_RESPONSE\<rparr>"
    by (simp add: extra_byte raise_event_def)
next
  assume a: "length bs = 6 \<and> length (rtc_buffer s0) = 6"
  define t where "t = run gw (AddressWrite # ByteWritten 67 # map ByteWritten bs) s0"
  have t: "command t = chr_C" "rtc_buffer_ptr t = 6" "rtc_buffer t = bs"
    "clock_of t = clock_of s0" "SDATA t = last bs"
    using after_six_clock_bytes[of bs s0 gw] a by (simp_all add: Let_def t_def)
  have split: "run gw (clock_transaction (bs @ xs)) s0 =
      on_event gw StopCondition (run gw (map ByteWritten xs) t)" for xs
    by (simp add: clock_transaction_def run_append t_def)
  have base: "run gw (clock_transaction bs) s0 = on_event gw StopCondition t"
    using split[of "[]"] by simp
  have sd: "SDATA (on_event gw StopCondition u) = SDATA u" for u
  proof -
    have "on_event gw StopCondition (u\<lparr>SSTATUS := SSTATUS u, SDATA := SDATA u, SCTRLB := SCTRLB u\<rparr>) =
        (on_event gw StopCondition u)\<lparr>SDATA := SDATA u\<rparr>"
      by (rule stop_ignores_bus_registers)
    then have "on_event gw StopCondition u = (on_event gw StopCondition u)\<lparr>SDATA := SDATA u\<rparr>"
      by simp
    then have "SDATA (on_event gw StopCondition u) =
        SDATA ((on_event gw StopCondition u)\<lparr>SDATA := SDATA u\<rparr>)"
      by (rule arg_cong)
    then show ?thesis by simp
  qed
  have bs: "bs \<noteq> []"
    using a by auto
  show "run gw (clock_transaction (bs @ extra)) s0 =
        (run gw (clock_transaction bs) s0)\<lparr>SDATA := last (bs @ extra)\<rparr>"
  proof (cases "extra = []")
    case True
    have "on_event gw StopCondition t = (on_event gw StopCondition t)\<lparr>SDATA := last bs\<rparr>"
      using sd[of t] t(5) by simp
    then show ?thesis using True by (simp add: base)
  next
    case False
    have "run gw (clock_transaction (bs @ extra)) s0 =
        on_event gw StopCondition (t\<lparr>SSTATUS := data_write_status, SDATA := last extra,
          SCTRLB := NACK_RESPONSE\<rparr>)"
      by (simp only: split extra_bytes[OF t(1) t(2) False])
    also have "\<dots> = (on_event gw StopCondition t)\<lparr>SDATA := last extra\<rparr>"
      by (rule stop_ignores_bus_registers)
    finally show ?thesis
      using False by (simp add: base)
  qed
  show "clock_of (run gw (clock_transaction (bs @ extra)) s0) =
        (if spec_clock_valid (unat (bs ! 0)) (unat (bs ! 1)) (unat (bs ! 2)) (unat (bs ! 3))
              (unat (bs ! 4)) (unat (bs ! 5))
         then (spec_year (unat (bs ! 0)), unat (bs ! 1), unat (bs ! 2), unat (bs ! 3),
               unat (bs ! 4), unat (bs ! 5))
         else clock_of s0)"
  proof (cases "extra = []")
    case True
    then show ?thesis using t by (simp add: base clock_of_stop_event)
  next
    case False
    have "run gw (clock_transaction (bs @ extra)) s0 =
        on_event gw StopCondition (t\<lparr>SSTATUS := data_write_status, SDATA := last extra,
          SCTRLB := NACK_RESPONSE\<rparr>)"
      by (simp only: split extra_bytes[OF t(1) t(2) False])
    then show ?thesis using t
      by (simp add: clock_of_stop_event) (simp add: clock_of_def)
  qed
qed


theorem extra_clock_bytes_rejected_and_ignored_witness:
  "command (run card_absent clock_set_events initial_state) = chr_C \<and>
   rtc_buffer_ptr (run card_absent clock_set_events initial_state) = 6 \<and>
   SCTRLB (on_event card_absent (ByteWritten 99)
     (run card_absent clock_set_events initial_state)) = NACK_RESPONSE \<and>
   rtc_buffer (on_event card_absent (ByteWritten 99)
     (run card_absent clock_set_events initial_state)) = [24, 7, 26, 10, 30, 0] \<and>
   rtc_buffer_ptr (on_event card_absent (ByteWritten 99)
     (run card_absent clock_set_events initial_state)) = 6 \<and>
   length [24, 7, 26, 10, 30, 0 :: u8] = 6 \<and> length (rtc_buffer initial_state) = 6 \<and>
   clock_of (run card_absent (clock_transaction ([24, 7, 26, 10, 30, 0] @ [99, 1]))
     initial_state) = (2024, 7, 26, 10, 30, 0)"
  using extra_clock_bytes_rejected_and_ignored
      [where s = "run card_absent clock_set_events initial_state" and gw = card_absent
         and b = 99 and bs = "[24, 7, 26, 10, 30, 0]" and ?s0.0 = initial_state
         and extra = "[99, 1]"]
  by (simp add: clock_set_events_def clock_transaction_def engine_defs demo_defs Let_def
      list_update_Cons_numeral clock_of_def spec_clock_valid_def spec_year_def)

subsection \<open>Helpers for response streams\<close>

lemma read_request_absorbed:
  "nack \<and> checknack s \<Longrightarrow>
   on_event gw (ByteReadRequested nack) s =
     (raise_event (ByteReadRequested nack) s)\<lparr>checknack := False, SCTRLB := RESPONSE\<rparr>"
  by (simp add: on_event_def ISR_def raise_event_def)

lemma read_request_served:
  "\<not> (nack \<and> checknack s) \<Longrightarrow>
   on_event gw (ByteReadRequested nack) s =
     (DataHostRead gw (raise_event (ByteReadRequested nack) s))
       \<lparr>checknack := True, SCTRLB := RESPONSE\<rparr>"
  by (auto simp add: on_event_def ISR_def raise_event_def)

lemma replicate_Cons_numeral: "replicate (numeral k) x = x # replicate (pred_numeral k) x"
  by (simp add: numeral_eq_Suc)

lemma map_constant:
  "(\<And>x. x \<in> set xs \<Longrightarrow> g x = c) \<Longrightarrow> map g xs = replicate (length xs) c"
  by (induction xs) auto

subsection \<open>Served requests call the handler\<close>

text \<open>
  \<open>DataHostRead\<close> commutes with the fields owned by the interrupt routine, so the bytes
  sent in answer to \<open>n\<close> acknowledged read-byte requests are the bytes of \<open>n\<close> successive
  calls of \<open>DataHostRead\<close> (\<open>serve_reads_read_bytes\<close>). The response streams below are
  stated for \<open>read_bytes\<close>.
\<close>

lemma with_bus_reads:
  "command (with_bus x c z s) = command s" "ptr (with_bus x c z s) = ptr s"
  "Filename (with_bus x c z s) = Filename s" "lib_calls (with_bus x c z s) = lib_calls s"
  "myFile (with_bus x c z s) = myFile s" "Filesize (with_bus x c z s) = Filesize s"
  "volFatType (with_bus x c z s) = volFatType s" "volBlocks (with_bus x c z s) = volBlocks s"
  "volClusters (with_bus x c z s) = volClusters s" "mem_faults (with_bus x c z s) = mem_faults s"
  "dirList_state (with_bus x c z s) = dirList_state s"
  "dirList_byteCounter (with_bus x c z s) = dirList_byteCounter s"
  "dirList_filenameBuffer (with_bus x c z s) = dirList_filenameBuffer s"
  "dirList_entrySize (with_bus x c z s) = dirList_entrySize s"
  "dirList_currentDir (with_bus x c z s) = dirList_currentDir s"
  "dirList_currentEntry (with_bus x c z s) = dirList_currentEntry s"
  "dirList_dirOpen (with_bus x c z s) = dirList_dirOpen s"
  by (simp_all add: with_bus_def)

lemma with_bus_updates:
  "(with_bus x c z s)\<lparr>SDATA := a\<rparr> = with_bus x c z (s\<lparr>SDATA := a\<rparr>)"
  "(with_bus x c z s)\<lparr>ptr := p\<rparr> = with_bus x c z (s\<lparr>ptr := p\<rparr>)"
  "(with_bus x c z s)\<lparr>LED := l\<rparr> = with_bus x c z (s\<lparr>LED := l\<rparr>)"
  "(with_bus x c z s)\<lparr>lib_calls := k\<rparr> = with_bus x c z (s\<lparr>lib_calls := k\<rparr>)"
  "(with_bus x c z s)\<lparr>myFile := f\<rparr> = with_bus x c z (s\<lparr>myFile := f\<rparr>)"
  "(with_bus x c z s)\<lparr>Filesize := w\<rparr> = with_bus x c z (s\<lparr>Filesize := w\<rparr>)"
  "(with_bus x c z s)\<lparr>volFatType := b\<rparr> = with_bus x c z (s\<lparr>volFatType := b\<rparr>)"
  "(with_bus x c z s)\<lparr>volBlocks := w\<rparr> = with_bus x c z (s\<lparr>volBlocks := w\<rparr>)"
  "(with_bus x c z s)\<lparr>volClusters := w\<rparr> = with_bus x c z (s\<lparr>volClusters := w\<rparr>)"
  "(with_bus x c z s)\<lparr>mem_faults := m\<rparr> = with_bus x c z (s\<lparr>mem_faults := m\<rparr>)"
  "(with_bus x c z s)\<lparr>dirList_state := d\<rparr> = with_bus x c z (s\<lparr>dirList_state := d\<rparr>)"
  "(with_bus x c z s)\<lparr>dirList_byteCounter := b\<rparr> = with_bus x c z (s\<lparr>dirList_byteCounter := b\<rparr>)"
  "(with_bus x c z s)\<lparr>dirList_filenameBuffer := n\<rparr> = with_bus x c z (s\<lparr>dirList_filenameBuffer := n\<rparr>)"
  "(with_bus x c z s)\<lparr>dirList_entrySize := w\<rparr> = with_bus x c z (s\<lparr>dirList_entrySize := w\<rparr>)"
  "(with_bus x c z s)\<lparr>dirList_currentDir := f\<rparr> = with_bus x c z (s\<lparr>dirList_currentDir := f\<rparr>)"
  "(with_bus x c z s)\<lparr>dirList_currentEntry := f\<rparr> = with_bus x c z (s\<lparr>dirList_currentEntry := f\<rparr>)"
  "(with_bus x c z s)\<lparr>dirList_dirOpen := q\<rparr> = with_bus x c z (s\<lparr>dirList_dirOpen := q\<rparr>)"
  by (simp_all add: with_bus_def)

lemma called_bus: "called k (with_bus x c z s) = with_bus x c z (called k s)"
  by (simp add: called_def with_bus_reads with_bus_updates)

lemma LightLED_bus: "LightLED l (with_bus x c z s) = with_bus x c z (LightLED l s)"
  by (simp add: LightLED_def with_bus_updates)

lemma next_entry_bus: "next_entry (with_bus x c z s) = with_bus x c z (next_entry s)"
  by (simp add: next_entry_def case_prod_unfold Let_def with_bus_reads with_bus_updates
      called_bus)

lemma close_currentDir_bus:
  "close_currentDir (with_bus x c z s) = with_bus x c z (close_currentDir s)"
  by (simp add: close_currentDir_def with_bus_reads with_bus_updates called_bus)

lemma close_currentEntry_bus:
  "close_currentEntry (with_bus x c z s) = with_bus x c z (close_currentEntry s)"
  by (simp add: close_currentEntry_def with_bus_reads with_bus_updates called_bus)

lemma start_entry_bus:
  "start_entry (with_bus x c z s) = (fst (start_entry s), with_bus x c z (snd (start_entry s)))"
  by (simp add: start_entry_def with_bus_reads with_bus_updates)


lemmas bus_simps = with_bus_reads with_bus_updates called_bus LightLED_bus next_entry_bus
  close_currentDir_bus close_currentEntry_bus

lemma switch_bus:
  "dirList_switch gw (with_bus x c z s) =
     (fst (dirList_switch gw s), with_bus x c z (snd (dirList_switch gw s)))"
proof (cases "dirList_state s")
  case DIR_STREAM_IDLE
  then show ?thesis
    by (simp add: dirList_switch_def Let_def bus_simps start_entry_bus)
next
  case DIR_STREAM_SEND_NAME
  then show ?thesis
    by (simp add: dirList_switch_def Let_def bus_simps)
next
  case DIR_STREAM_SEND_SIZE
  then show ?thesis
    by (simp add: dirList_switch_def Let_def bus_simps)
next
  case DIR_STREAM_SEND_TYPE_NEXT
  then show ?thesis
    by (simp add: dirList_switch_def bus_simps start_entry_bus)
next
  case DIR_STREAM_SEND_END
  then show ?thesis
    by (simp add: dirList_switch_def bus_simps)
qed


lemma dirList_read_bus:
  "dirList_read gw (with_bus x c z s) = with_bus x c z (dirList_read gw s)"
  unfolding dirList_read_def switch_bus
  by (simp add: Let_def case_prod_unfold bus_simps)

lemma volume_read_bus:
  "volume_read gw (with_bus x c z s) = with_bus x c z (volume_read gw s)"
  by (simp add: volume_read_def Let_def bus_simps)

lemma size_read_bus:
  "size_read (with_bus x c z s) = with_bus x c z (size_read s)"
proof -
  have f: "Filebytes (with_bus x c z t) i = Filebytes t i" for t i
    by (simp add: Filebytes_def bus_simps)
  show ?thesis
    by (simp add: size_read_def Let_def bus_simps f split: option.splits)
qed

lemma DataHostRead_bus:
  "DataHostRead gw (with_bus x c z s) = with_bus x c z (DataHostRead gw s)"
  by (simp add: DataHostRead_def Let_def case_prod_unfold bus_simps dirList_read_bus
      volume_read_bus size_read_bus)


lemma with_bus_same: "with_bus (SSTATUS s) (checknack s) (SCTRLB s) s = s"
  by (simp add: with_bus_def)

lemma SDATA_with_bus: "SDATA (with_bus x c z s) = SDATA s"
  by (simp add: with_bus_def)

lemma served_request_bus:
  "on_event gw (ByteReadRequested False) (with_bus x c z s) =
     with_bus data_read_status True RESPONSE (DataHostRead gw s)"
proof -
  have "raise_event (ByteReadRequested False) (with_bus x c z s) = with_bus data_read_status c z s"
    by (simp add: raise_event_def with_bus_def)
  then have "on_event gw (ByteReadRequested False) (with_bus x c z s) =
      (with_bus data_read_status c z (DataHostRead gw s))\<lparr>checknack := True, SCTRLB := RESPONSE\<rparr>"
    using read_request_served[of False "with_bus x c z s" gw] by (simp add: DataHostRead_bus)
  then show ?thesis
    by (simp add: with_bus_def)
qed

lemma serve_reads_bus:
  "fst (serve_reads gw n (with_bus x c z s)) = fst (read_bytes gw n s) \<and>
   snd (serve_reads gw n (with_bus x c z s)) =
     (if n = 0 then with_bus x c z s
      else with_bus data_read_status True RESPONSE (snd (read_bytes gw n s)))"
proof (induction n arbitrary: s x c z)
  case 0
  then show ?case by simp
next
  case (Suc n)
  have ih: "fst (serve_reads gw n (with_bus data_read_status True RESPONSE (DataHostRead gw s))) =
      fst (read_bytes gw n (DataHostRead gw s)) \<and>
    snd (serve_reads gw n (with_bus data_read_status True RESPONSE (DataHostRead gw s))) =
     (if n = 0 then with_bus data_read_status True RESPONSE (DataHostRead gw s)
      else with_bus data_read_status True RESPONSE (snd (read_bytes gw n (DataHostRead gw s))))"
    by (rule Suc.IH)
  show ?case
    using ih by (simp add: served_request_bus SDATA_with_bus case_prod_unfold Let_def)
qed

lemma serve_reads_read_bytes: "fst (serve_reads gw n s) = fst (read_bytes gw n s)"
  using serve_reads_bus[of gw n "SSTATUS s" "checknack s" "SCTRLB s" s]
  by (simp add: with_bus_same)

subsection \<open>The file-size response\<close>

lemma size_read_first:
  "command s = chr_S \<Longrightarrow> ptr s = 0 \<Longrightarrow>
   DataHostRead gw s =
     s\<lparr>Filesize := size_of (myFile s), lib_calls := lib_calls s @ [Call_size],
       SDATA := ucast (drop_bit 24 (size_of (myFile s))), ptr := 1\<rparr>"
  by (simp add: DataHostRead_def size_read_def Filebytes_def called_def Let_def)

lemma size_read_next:
  "command s = chr_S \<Longrightarrow> ptr s = int k \<Longrightarrow> 0 < k \<Longrightarrow> k < 4 \<Longrightarrow>
   DataHostRead gw s =
     s\<lparr>SDATA := ucast (drop_bit (8 * (3 - k)) (Filesize s)), ptr := int (Suc k)\<rparr>"
  by (simp add: DataHostRead_def size_read_def Filebytes_def called_def Let_def nat_diff_distrib)

lemma size_read_beyond:
  "command s = chr_S \<Longrightarrow> ptr s = 4 \<Longrightarrow> DataHostRead gw s = s\<lparr>SDATA := 0\<rparr>"
  by (simp add: DataHostRead_def size_read_def)

lemma size_stream:
  "command s = chr_S \<Longrightarrow> ptr s = int (min k 4) \<Longrightarrow>
   sz = (if k = 0 then size_of (myFile s) else Filesize s) \<Longrightarrow>
   fst (read_bytes gw n s) = map (size_byte sz) [k..<k + n] \<and>
   lib_calls (snd (read_bytes gw n s)) =
     lib_calls s @ (if k = 0 \<and> 0 < n then [Call_size] else [])"
proof (induction n arbitrary: s k)
  case 0
  then show ?case by simp
next
  case (Suc n)
  let ?s1 = "DataHostRead gw s"
  have s1: "command ?s1 = chr_S \<and> ptr ?s1 = int (min (Suc k) 4) \<and> Filesize ?s1 = sz \<and>
      SDATA ?s1 = size_byte sz k \<and>
      lib_calls ?s1 = lib_calls s @ (if k = 0 then [Call_size] else [])"
  proof -
    consider "k = 0" | "0 < k" "k < 4" | "4 \<le> k" by linarith
    then show ?thesis
    proof cases
      case 1
      then show ?thesis using Suc.prems by (simp add: size_read_first size_byte_def)
    next
      case 2
      then show ?thesis using Suc.prems by (simp add: size_read_next size_byte_def)
    next
      case 3
      then show ?thesis using Suc.prems by (simp add: size_read_beyond size_byte_def)
    qed
  qed
  have ih: "fst (read_bytes gw n ?s1) = map (size_byte sz) [Suc k..<Suc k + n] \<and>
   lib_calls (snd (read_bytes gw n ?s1)) =
     lib_calls ?s1 @ (if Suc k = 0 \<and> 0 < n then [Call_size] else [])"
    by (rule Suc.IH) (use s1 in simp_all)
  have "[k..<k + Suc n] = k # [Suc k..<Suc k + n]"
    by (simp add: upt_conv_Cons)
  then show ?case
    using ih s1 by (simp add: case_prod_unfold Let_def)
qed

text \<open>
  Claim C7. In a file-size (\<open>'S'\<close>) response sequence, which starts with the cursor
  \<open>ptr\<close> at 0, the size of the file is computed exactly once, by the first read-byte
  request (one \<open>size()\<close> call, however many bytes are requested); the first four requests
  return the 32-bit size most significant byte first, and every request beyond the
  fourth returns 0.
\<close>

theorem file_size_response_big_endian_once:
  "command s = chr_S \<and> ptr s = 0 \<longrightarrow>
     fst (read_bytes gw n s) = map (size_byte (size_of (myFile s))) [0..<n] \<and>
     lib_calls (snd (read_bytes gw n s)) = lib_calls s @ (if 0 < n then [Call_size] else [])"
  using size_stream[of s 0 "size_of (myFile s)" gw n] by simp

theorem file_size_response_big_endian_once_witness:
  "command (run (card_with demo_file) size_events initial_state) = chr_S \<and>
   ptr (run (card_with demo_file) size_events initial_state) = 0 \<and>
   fst (read_bytes (card_with demo_file) 6 (run (card_with demo_file) size_events initial_state)) =
     [1, 2, 3, 4, 0, 0]"
  using file_size_response_big_endian_once
      [of "run (card_with demo_file) size_events initial_state" "card_with demo_file" 6]
  by (simp add: size_events_def engine_defs demo_defs Let_def size_byte_def size_of_def
      size_read_def Filebytes_def upt_rec drop_bit_eq_div)

subsection \<open>The volume-info response\<close>

lemma DataHostRead_V: "command s = chr_V \<Longrightarrow> DataHostRead gw s = volume_read gw s"
  by (simp add: DataHostRead_def)

lemma volume_read_first_ok:
  "command s = chr_V \<Longrightarrow> ptr s = 0 \<Longrightarrow> volume_init gw (lib_calls s) \<Longrightarrow>
   DataHostRead gw s =
     s\<lparr>lib_calls := lib_calls s @ [Call_volume_init],
       volFatType := volume_fatType gw (lib_calls s @ [Call_volume_init]),
       volBlocks := volume_blocksPerCluster gw (lib_calls s @ [Call_volume_init]),
       volClusters := volume_clusterCount gw (lib_calls s @ [Call_volume_init]),
       SDATA := 1, ptr := 1\<rparr>"
  by (simp add: DataHostRead_V volume_read_def called_def Let_def)

lemma volume_read_first_failed:
  "command s = chr_V \<Longrightarrow> ptr s = 0 \<Longrightarrow> \<not> volume_init gw (lib_calls s) \<Longrightarrow>
   DataHostRead gw s =
     s\<lparr>lib_calls := lib_calls s @ [Call_volume_init], SDATA := 0xFF, ptr := - 1\<rparr>"
  by (simp add: DataHostRead_V volume_read_def called_def Let_def)

lemma volume_read_next:
  assumes "command s = chr_V" "ptr s = int k" "0 < k" "k < 10"
  shows "DataHostRead gw s =
     s\<lparr>SDATA := volume_byte (volFatType s) (volBlocks s) (volClusters s) k, ptr := int (Suc k)\<rparr>"
proof -
  have "k = 1 \<or> k = 2 \<or> k = 3 \<or> k = 4 \<or> k = 5 \<or> k = 6 \<or> k = 7 \<or> k = 8 \<or> k = 9"
    using assms(3,4) by linarith
  then show ?thesis
    using assms(1,2)
    by (elim disjE) (simp_all add: DataHostRead_V volume_read_def volume_byte_def)
qed

lemma volume_read_done:
  "command s = chr_V \<Longrightarrow> ptr s = 10 \<Longrightarrow> DataHostRead gw s = s\<lparr>SDATA := 0\<rparr>"
  by (simp add: DataHostRead_V volume_read_def)

lemma volume_read_error:
  "command s = chr_V \<Longrightarrow> ptr s = - 1 \<Longrightarrow> DataHostRead gw s = s\<lparr>SDATA := 0\<rparr>"
  by (simp add: DataHostRead_V volume_read_def)

lemma volume_stream_tail:
  "command s = chr_V \<Longrightarrow> ptr s = int (min k 10) \<Longrightarrow> 0 < k \<Longrightarrow>
   volFatType s = f \<Longrightarrow> volBlocks s = b \<Longrightarrow> volClusters s = c \<Longrightarrow>
   fst (read_bytes gw n s) = map (volume_byte f b c) [k..<k + n] \<and>
   lib_calls (snd (read_bytes gw n s)) = lib_calls s"
proof (induction n arbitrary: s k)
  case 0
  then show ?case by simp
next
  case (Suc n)
  let ?s1 = "DataHostRead gw s"
  have s1: "command ?s1 = chr_V \<and> ptr ?s1 = int (min (Suc k) 10) \<and> volFatType ?s1 = f \<and>
      volBlocks ?s1 = b \<and> volClusters ?s1 = c \<and> SDATA ?s1 = volume_byte f b c k \<and>
      lib_calls ?s1 = lib_calls s"
  proof (cases "k < 10")
    case True
    then show ?thesis using Suc.prems by (simp add: volume_read_next)
  next
    case False
    then show ?thesis using Suc.prems by (simp add: volume_read_done volume_byte_def)
  qed
  have ih: "fst (read_bytes gw n ?s1) = map (volume_byte f b c) [Suc k..<Suc k + n] \<and>
   lib_calls (snd (read_bytes gw n ?s1)) = lib_calls ?s1"
    by (rule Suc.IH) (use s1 in simp_all)
  have "[k..<k + Suc n] = k # [Suc k..<Suc k + n]"
    by (simp add: upt_conv_Cons)
  then show ?case
    using ih s1 by (simp add: case_prod_unfold Let_def)
qed

lemma volume_stream_failed:
  "command s = chr_V \<Longrightarrow> ptr s = - 1 \<Longrightarrow>
   fst (read_bytes gw n s) = replicate n 0 \<and> lib_calls (snd (read_bytes gw n s)) = lib_calls s"
proof (induction n arbitrary: s)
  case 0
  then show ?case by simp
next
  case (Suc n)
  have s1: "DataHostRead gw s = s\<lparr>SDATA := 0\<rparr>"
    using Suc.prems by (simp add: volume_read_error)
  have "fst (read_bytes gw n (s\<lparr>SDATA := 0\<rparr>)) = replicate n 0 \<and>
      lib_calls (snd (read_bytes gw n (s\<lparr>SDATA := 0\<rparr>))) = lib_calls (s\<lparr>SDATA := 0\<rparr>)"
    by (rule Suc.IH) (use Suc.prems in simp_all)
  then show ?case
    by (simp add: s1 case_prod_unfold Let_def)
qed

lemma volume_bytes_layout:
  "map (volume_byte f b c) [0..<n] = take n (1 # f # le32 b @ le32 c) @ replicate (n - 10) 0"
proof -
  have ten: "map (volume_byte f b c) [0..<10] = 1 # f # le32 b @ le32 c"
    by (simp add: upt_rec volume_byte_def le32_def)
  show ?thesis
  proof (cases "n \<le> 10")
    case True
    have "map (volume_byte f b c) [0..<n] = take n (map (volume_byte f b c) [0..<10])"
      using True by (simp add: take_map min_def)
    then show ?thesis using True by (simp add: ten)
  next
    case False
    then have "[0..<n] = [0..<10] @ [10..<n]"
      by (metis le_add_diff_inverse nat_le_linear upt_add_eq_append zero_le)
    moreover have "map (volume_byte f b c) [10..<n] = replicate (length [10..<n]) 0"
      by (rule map_constant) (simp add: volume_byte_def)
    then have "map (volume_byte f b c) [10..<n] = replicate (n - 10) 0"
      by simp
    ultimately show ?thesis using False by (simp add: ten) (simp add: le32_def)
  qed
qed


lemma volume_failed_bytes:
  assumes "command s = chr_V" "ptr s = 0" "\<not> volume_init gw (lib_calls s)"
  shows "fst (read_bytes gw (Suc m) s) = 0xFF # replicate m 0"
proof -
  let ?s1 = "DataHostRead gw s"
  have s1: "?s1 = s\<lparr>lib_calls := lib_calls s @ [Call_volume_init], SDATA := 0xFF, ptr := - 1\<rparr>"
    using assms by (rule volume_read_first_failed)
  have "fst (read_bytes gw m ?s1) = replicate m 0 \<and>
      lib_calls (snd (read_bytes gw m ?s1)) = lib_calls ?s1"
    by (rule volume_stream_failed) (use assms(1) in \<open>simp_all add: s1\<close>)
  then show ?thesis
    by (simp add: case_prod_unfold Let_def s1)
qed

lemma volume_query_state_eq:
  "volume_query_state =
     initial_state\<lparr>volFatType := 32, volBlocks := 64, volClusters := 0x0003C000,
       command := chr_V, lib_calls := [Call_begin, Call_volume_init],
       SSTATUS := \<lparr>APIF = True, AP = True, DIF = False, DIR = True, RXACK = False\<rparr>,
       SDATA := 86, SCTRLB := ACK_RESPONSE\<rparr>"
  by (simp add: volume_query_state_def volume_events_def setup_sketch_def card_pulled_def
      engine_defs Let_def initial_state_def noFile_def)

text \<open>
  Claim C8 as stated fails where it says that after a failure status the remaining 9
  bytes are whatever the cache holds. With the card pulled after start-up the cache holds
  FAT type 32, 64 blocks per cluster and 0x3C000 clusters, the status byte is 0xFF, and
  the 9 bytes after it are all 0.
\<close>

theorem volume_info_failure_sends_zeros_not_cache:
  "\<not> volume_init card_pulled (lib_calls volume_query_state) \<and>
   command volume_query_state = chr_V \<and> ptr volume_query_state = 0 \<and>
   fst (read_bytes card_pulled (Suc 9) volume_query_state) = 0xFF # replicate 9 0 \<and>
   volFatType volume_query_state = 32 \<and> volBlocks volume_query_state = 64 \<and>
   volClusters volume_query_state = 0x0003C000"
proof -
  have f: "\<not> volume_init card_pulled (lib_calls volume_query_state)"
    "command volume_query_state = chr_V" "ptr volume_query_state = 0"
    "volFatType volume_query_state = 32" "volBlocks volume_query_state = 64"
    "volClusters volume_query_state = 0x0003C000"
    by (simp_all add: volume_query_state_eq card_pulled_def initial_state_def)
  show ?thesis
    using volume_failed_bytes[OF f(2) f(3) f(1), of 9] f by simp
qed

text \<open>
  Claim C8, amended. In a volume-info (\<open>'V'\<close>) response sequence, which starts with the
  cursor \<open>ptr\<close> at 0, the volume is initialised once, by the first read-byte request. If
  that succeeds the response is the status 1, the FAT type, the blocks per cluster and
  the cluster count (4 bytes each, least significant first), and 0 for every request
  beyond the tenth. If it fails the response is the status 0xFF followed by 0 for every
  further request.
\<close>

theorem volume_info_response_layout:
  "command s = chr_V \<and> ptr s = 0 \<longrightarrow>
     (volume_init gw (lib_calls s) \<longrightarrow>
        fst (read_bytes gw n s) =
          take n (1 # volume_fatType gw (lib_calls s @ [Call_volume_init]) #
                  le32 (volume_blocksPerCluster gw (lib_calls s @ [Call_volume_init])) @
                  le32 (volume_clusterCount gw (lib_calls s @ [Call_volume_init]))) @
          replicate (n - 10) 0) \<and>
     (\<not> volume_init gw (lib_calls s) \<longrightarrow>
        fst (read_bytes gw n s) = take n (0xFF # replicate (n - 1) 0)) \<and>
     lib_calls (snd (read_bytes gw n s)) =
       lib_calls s @ (if 0 < n then [Call_volume_init] else [])"
proof (intro impI, elim conjE)
  assume c: "command s = chr_V" and p: "ptr s = 0"
  show "(volume_init gw (lib_calls s) \<longrightarrow>
        fst (read_bytes gw n s) =
          take n (1 # volume_fatType gw (lib_calls s @ [Call_volume_init]) #
                  le32 (volume_blocksPerCluster gw (lib_calls s @ [Call_volume_init])) @
                  le32 (volume_clusterCount gw (lib_calls s @ [Call_volume_init]))) @
          replicate (n - 10) 0) \<and>
     (\<not> volume_init gw (lib_calls s) \<longrightarrow>
        fst (read_bytes gw n s) = take n (0xFF # replicate (n - 1) 0)) \<and>
     lib_calls (snd (read_bytes gw n s)) =
       lib_calls s @ (if 0 < n then [Call_volume_init] else [])"
  proof (cases n)
    case 0
    then show ?thesis by simp
  next
    case (Suc m)
    let ?s1 = "DataHostRead gw s"
    let ?f = "volume_fatType gw (lib_calls s @ [Call_volume_init])"
    let ?b = "volume_blocksPerCluster gw (lib_calls s @ [Call_volume_init])"
    let ?c = "volume_clusterCount gw (lib_calls s @ [Call_volume_init])"
    show ?thesis
    proof (cases "volume_init gw (lib_calls s)")
      case True
      have s1: "?s1 = s\<lparr>lib_calls := lib_calls s @ [Call_volume_init],
         volFatType := ?f, volBlocks := ?b, volClusters := ?c, SDATA := 1, ptr := 1\<rparr>"
        using c p True by (rule volume_read_first_ok)
      have tl: "fst (read_bytes gw m ?s1) = map (volume_byte ?f ?b ?c) [1..<1 + m] \<and>
          lib_calls (snd (read_bytes gw m ?s1)) = lib_calls ?s1"
        by (rule volume_stream_tail) (use c in \<open>simp_all add: s1\<close>)
      have "[0..<n] = 0 # [1..<1 + m]"
        using Suc by (simp add: upt_conv_Cons)
      then have bytes: "fst (read_bytes gw n s) = map (volume_byte ?f ?b ?c) [0..<n]"
        using tl Suc by (simp add: case_prod_unfold Let_def s1 volume_byte_def)
      have calls: "lib_calls (snd (read_bytes gw n s)) = lib_calls s @ [Call_volume_init]"
        using tl Suc by (simp add: case_prod_unfold Let_def s1)
      have "0 < n" using Suc by simp
      then show ?thesis
        unfolding bytes calls volume_bytes_layout using True by simp
    next
      case False
      have s1: "?s1 = s\<lparr>lib_calls := lib_calls s @ [Call_volume_init], SDATA := 0xFF, ptr := - 1\<rparr>"
        using c p False by (rule volume_read_first_failed)
      have tl: "fst (read_bytes gw m ?s1) = replicate m 0 \<and>
          lib_calls (snd (read_bytes gw m ?s1)) = lib_calls ?s1"
        by (rule volume_stream_failed) (use c in \<open>simp_all add: s1\<close>)
      show ?thesis
        using tl Suc False by (simp add: case_prod_unfold Let_def s1)
    qed
  qed
qed


theorem volume_info_response_layout_witness:
  "command (run (card_with demo_file) volume_events initial_state) = chr_V \<and>
   ptr (run (card_with demo_file) volume_events initial_state) = 0 \<and>
   volume_init (card_with demo_file)
     (lib_calls (run (card_with demo_file) volume_events initial_state)) \<and>
   fst (read_bytes (card_with demo_file) 12
     (run (card_with demo_file) volume_events initial_state)) =
     [1, 32, 64, 0, 0, 0, 0, 0xC0, 3, 0, 0, 0] \<and>
   command (run card_absent volume_events initial_state) = chr_V \<and>
   ptr (run card_absent volume_events initial_state) = 0 \<and>
   \<not> volume_init card_absent (lib_calls (run card_absent volume_events initial_state)) \<and>
   fst (read_bytes card_absent 3 (run card_absent volume_events initial_state)) = [0xFF, 0, 0]"
  using volume_info_response_layout
      [of "run (card_with demo_file) volume_events initial_state" "card_with demo_file" 12]
    volume_info_response_layout
      [of "run card_absent volume_events initial_state" card_absent 3]
  by (simp add: volume_events_def engine_defs demo_defs Let_def le32_def drop_bit_eq_div
      replicate_Cons_numeral)

subsection \<open>The one-shot commands mkdir, rmdir and remove\<close>

lemma one_shot_read:
  assumes "command s = chr_M \<or> command s = chr_D \<or> command s = chr_X"
  shows "DataHostRead gw s =
     s\<lparr>SDATA := SDATA (DataHostRead gw s),
       lib_calls := lib_calls s @ [one_shot_call (command s) (Filename s)]\<rparr>"
  using assms by (elim disjE) (simp_all add: DataHostRead_def called_def one_shot_call_def)

lemma one_shot_reads:
  "command s = chr_M \<or> command s = chr_D \<or> command s = chr_X \<Longrightarrow>
   lib_calls (snd (read_bytes gw n s)) =
     lib_calls s @ replicate n (one_shot_call (command s) (Filename s))"
proof (induction n arbitrary: s)
  case 0
  then show ?case by simp
next
  case (Suc n)
  define b where "b = SDATA (DataHostRead gw s)"
  have s1: "DataHostRead gw s =
     s\<lparr>SDATA := b, lib_calls := lib_calls s @ [one_shot_call (command s) (Filename s)]\<rparr>"
    unfolding b_def using Suc.prems by (rule one_shot_read)
  let ?s1 = "s\<lparr>SDATA := b, lib_calls := lib_calls s @ [one_shot_call (command s) (Filename s)]\<rparr>"
  have "lib_calls (snd (read_bytes gw n ?s1)) =
     lib_calls ?s1 @ replicate n (one_shot_call (command ?s1) (Filename ?s1))"
    by (rule Suc.IH) (use Suc.prems in simp)
  then show ?case
    by (simp add: s1 case_prod_unfold Let_def replicate_append_same)
qed

text \<open>
  Claim C4 as stated fails: nothing in the engine remembers that the operation has been
  done. In a mkdir transaction in which the host reads two bytes, \<open>SD.mkdir\<close> is called
  twice.
\<close>

theorem mkdir_repeated_on_second_read:
  "count_list (lib_calls (run (card_with demo_dir) mkdir_two_reads initial_state))
     (Call_mkdir (Filename initial_state)) = 2"
  by (simp add: mkdir_two_reads_def engine_defs demo_defs Let_def)

text \<open>
  Claim C4, amended. While the active command is mkdir (\<open>'M'\<close>), rmdir (\<open>'D'\<close>) or remove
  (\<open>'X'\<close>), every read-byte request that is served calls the corresponding library
  operation exactly once, so \<open>n\<close> served requests call it \<open>n\<close> times; the request that is
  absorbed after a NACK calls nothing. A host that reads a single byte therefore causes
  exactly one call.
\<close>

theorem one_shot_operation_once_per_served_request:
  "command s = chr_M \<or> command s = chr_D \<or> command s = chr_X \<longrightarrow>
     lib_calls (on_event gw (ByteReadRequested nack) s) =
       (if nack \<and> checknack s then lib_calls s
        else lib_calls s @ [one_shot_call (command s) (Filename s)]) \<and>
     lib_calls (snd (read_bytes gw n s)) =
       lib_calls s @ replicate n (one_shot_call (command s) (Filename s))"
proof (intro impI conjI)
  assume a: "command s = chr_M \<or> command s = chr_D \<or> command s = chr_X"
  let ?r = "raise_event (ByteReadRequested nack) s"
  have r: "command ?r = command s" "Filename ?r = Filename s" "lib_calls ?r = lib_calls s"
    by (simp_all add: raise_event_def)
  have "lib_calls (DataHostRead gw ?r) =
      lib_calls ?r @ [one_shot_call (command ?r) (Filename ?r)]"
    by (subst one_shot_read) (use a r in simp_all)
  then have served: "lib_calls (DataHostRead gw ?r) =
      lib_calls s @ [one_shot_call (command s) (Filename s)]"
    by (simp only: r)
  show "lib_calls (on_event gw (ByteReadRequested nack) s) =
       (if nack \<and> checknack s then lib_calls s
        else lib_calls s @ [one_shot_call (command s) (Filename s)])"
  proof (cases "nack \<and> checknack s")
    case True
    then show ?thesis
      by (simp add: read_request_absorbed raise_event_def)
  next
    case False
    then show ?thesis
      by (simp add: read_request_served served)
  qed
  show "lib_calls (snd (read_bytes gw n s)) =
       lib_calls s @ replicate n (one_shot_call (command s) (Filename s))"
    using a by (rule one_shot_reads)
qed

theorem one_shot_operation_once_per_served_request_witness:
  "command (run (card_with demo_dir) [AddressWrite, ByteWritten 77, AddressRead]
      initial_state) = chr_M \<and>
   lib_calls (run (card_with demo_dir) mkdir_one_read initial_state) =
     [Call_mkdir (Filename initial_state)]"
  using one_shot_operation_once_per_served_request
      [of "run (card_with demo_dir) [AddressWrite, ByteWritten 77, AddressRead] initial_state"
         "card_with demo_dir" False 1]
  by (simp add: mkdir_one_read_def engine_defs demo_defs Let_def)

subsection \<open>The card-type query\<close>

text \<open>
  Claim C9. Every served read-byte request of the card-type (\<open>'Q'\<close>) command probes the
  card again (\<open>card.init\<close>). When the probe succeeds the byte sent is \<open>card.type()\<close>. When
  the probe fails the handler does not write the data register at all: the byte sent is
  whatever the register held, not the 0 that stands for "unknown/error". After the
  command byte \<open>'Q'\<close> (81) the register still holds 81.
\<close>

theorem card_type_query_probes_each_time:
  "command s = chr_Q \<longrightarrow>
     lib_calls (DataHostRead gw s) = lib_calls s @ [Call_card_init] \<and>
     (card_init gw (lib_calls s) \<longrightarrow>
        SDATA (DataHostRead gw s) = card_type gw (lib_calls s @ [Call_card_init])) \<and>
     (\<not> card_init gw (lib_calls s) \<longrightarrow> SDATA (DataHostRead gw s) = SDATA s)"
  by (simp add: DataHostRead_def called_def Let_def)

theorem card_type_query_probes_each_time_witness:
  "command (run card_absent card_type_events initial_state) = chr_Q \<and>
   \<not> card_init card_absent (lib_calls (run card_absent card_type_events initial_state)) \<and>
   SDATA (DataHostRead card_absent (run card_absent card_type_events initial_state)) = 81 \<and>
   SDATA (run card_absent (card_type_events @ [ByteReadRequested False]) initial_state) = 81"
  using card_type_query_probes_each_time
      [of "run card_absent card_type_events initial_state" card_absent]
  by (simp add: card_type_events_def engine_defs demo_defs Let_def)

subsection \<open>The filename buffer\<close>

lemma filename_byte_stored:
  assumes "command s = chr_F" "0 \<le> ch s" "ch s < 63"
  shows "on_event gw (ByteWritten b) s =
     (raise_event (ByteWritten b) s)
       \<lparr>Filename := (Filename s)[nat (ch s) := b, nat (ch s + 1) := 0], ch := ch s + 1,
        SCTRLB := ACK_RESPONSE\<rparr>"
  using assms
  by (simp add: on_event_def ISR_def raise_event_def DataHostWrite_def SendResponse_def
      store_Filename_def Let_def)

lemma filename_byte_overrun:
  assumes "command s = chr_F" "ch s = 63"
  shows "on_event gw (ByteWritten b) s =
     (raise_event (ByteWritten b) s)
       \<lparr>Filename := (Filename s)[63 := b], ch := 64,
        mem_faults := mem_faults s @ [OutOfRangeStore ''Filename'' 64 0],
        SCTRLB := ACK_RESPONSE\<rparr>"
  using assms
  by (simp add: on_event_def ISR_def raise_event_def DataHostWrite_def SendResponse_def
      store_Filename_def Let_def)

lemma filename_byte_rejected:
  assumes "command s = chr_F" "64 \<le> ch s"
  shows "on_event gw (ByteWritten b) s = (raise_event (ByteWritten b) s)\<lparr>SCTRLB := NACK_RESPONSE\<rparr>"
  using assms
  by (simp add: on_event_def ISR_def raise_event_def DataHostWrite_def SendResponse_def)

lemma filename_command_accepted:
  "(let t = run gw [AddressWrite, ByteWritten 70] s
    in command t = chr_F \<and> ch t = 0 \<and> Filename t = Filename s \<and>
       mem_faults t = mem_faults s)"
  by (simp add: on_event_def ISR_def raise_event_def DataHostWrite_def SendResponse_def 
     AddressHostWrite_def dirList_cleanup_def LightLED_def called_def Let_def)

lemma filename_bytes_accepted:
  "command s = chr_F \<Longrightarrow> ch s = int k \<Longrightarrow> k + length bs \<le> 63 \<Longrightarrow>
   length (Filename s) = 64 \<Longrightarrow> bs \<noteq> [] \<Longrightarrow>
   (let t = run gw (map ByteWritten bs) s
    in command t = chr_F \<and> ch t = int (k + length bs) \<and> length (Filename t) = 64 \<and>
       take (k + length bs + 1) (Filename t) = take k (Filename s) @ bs @ [0] \<and>
       mem_faults t = mem_faults s \<and> SCTRLB t = ACK_RESPONSE)"
proof (induction bs arbitrary: s k)
  case Nil
  then show ?case by simp
next
  case (Cons b bs)
  have k: "k < 63" using Cons.prems by simp
  let ?s1 = "on_event gw (ByteWritten b) s"
  have s1: "?s1 = (raise_event (ByteWritten b) s)
       \<lparr>Filename := (Filename s)[k := b, Suc k := 0], ch := int (Suc k),
        SCTRLB := ACK_RESPONSE\<rparr>"
    using filename_byte_stored[of s gw b] Cons.prems k by (simp add: nat_add_distrib)
  have f1: "command ?s1 = chr_F" "ch ?s1 = int (Suc k)" "length (Filename ?s1) = 64"
    "Filename ?s1 = (Filename s)[k := b, Suc k := 0]" "mem_faults ?s1 = mem_faults s"
    "SCTRLB ?s1 = ACK_RESPONSE"
    using Cons.prems by (simp_all add: s1 raise_event_def)
  have tk: "take (Suc (Suc k)) ((Filename s)[k := b, Suc k := 0]) = take k (Filename s) @ [b, 0]"
    using k Cons.prems(4)
    by (simp add: take_Suc_conv_app_nth)
  show ?case
  proof (cases "bs = []")
    case True
    then show ?thesis using f1 tk by (simp add: Let_def)
  next
    case False
    have ih: "(let t = run gw (map ByteWritten bs) ?s1
      in command t = chr_F \<and> ch t = int (Suc k + length bs) \<and> length (Filename t) = 64 \<and>
       take (Suc k + length bs + 1) (Filename t) = take (Suc k) (Filename ?s1) @ bs @ [0] \<and>
       mem_faults t = mem_faults ?s1 \<and> SCTRLB t = ACK_RESPONSE)"
      by (rule Cons.IH) (use f1 Cons.prems False in simp_all)
    have "take (Suc k) (Filename ?s1) = take k (Filename s) @ [b]"
      using k Cons.prems(4) by (simp add: f1(4) take_Suc_conv_app_nth)
    then show ?thesis using ih f1 by (simp add: Let_def)
  qed
qed

lemma after_63_name_bytes:
  "command (run gw long_name_events initial_state) = chr_F \<and>
   ch (run gw long_name_events initial_state) = 63 \<and>
   Filename (run gw long_name_events initial_state) = replicate 63 65 @ [0] \<and>
   mem_faults (run gw long_name_events initial_state) = []"
proof -
  define c where "c = run gw [AddressWrite, ByteWritten 70] initial_state"
  have c: "command c = chr_F" "ch c = int 0" "length (Filename c) = 64" "mem_faults c = []"
    using filename_command_accepted[of gw initial_state]
    by (simp_all add: Let_def c_def initial_state_def)
  have r: "run gw long_name_events initial_state = run gw (map ByteWritten (replicate 63 65)) c"
    by (simp add: long_name_events_def c_def)
  have "(let t = run gw (map ByteWritten (replicate 63 65)) c
    in command t = chr_F \<and> ch t = int (0 + length (replicate 63 (65::u8))) \<and> length (Filename t) = 64 \<and>
       take (0 + length (replicate 63 (65::u8)) + 1) (Filename t) = take 0 (Filename c) @ replicate 63 65 @ [0] \<and>
       mem_faults t = mem_faults c \<and> SCTRLB t = ACK_RESPONSE)"
    by (rule filename_bytes_accepted) (use c in simp_all)
  then have t: "command (run gw (map ByteWritten (replicate 63 65)) c) = chr_F"
    "ch (run gw (map ByteWritten (replicate 63 65)) c) = 63"
    "length (Filename (run gw (map ByteWritten (replicate 63 65)) c)) = 64"
    "take 64 (Filename (run gw (map ByteWritten (replicate 63 65)) c)) = replicate 63 65 @ [0]"
    "mem_faults (run gw (map ByteWritten (replicate 63 65)) c) = []"
    using c(4) by (simp_all add: Let_def)
  have "Filename (run gw (map ByteWritten (replicate 63 65)) c) =
      take 64 (Filename (run gw (map ByteWritten (replicate 63 65)) c))"
    using t(3) by simp
  then have "Filename (run gw (map ByteWritten (replicate 63 65)) c) = replicate 63 65 @ [0]"
    using t(4) by simp
  then show ?thesis
    unfolding r using t by simp
qed

text \<open>
  Claim C3. What the code does with a filename data byte, by the write index \<open>ch\<close>: below
  63 the byte is stored and a terminator is written after it, inside the buffer; from 64
  on the byte is rejected (NACK) and nothing changes. At \<open>ch = 63\<close> the guard
  \<open>ch < Namelength\<close> still accepts the byte: it is stored in the last element of the
  64-byte array and the terminator is written to \<open>Filename[64]\<close>, outside the array. After
  64 bytes the buffer holds 64 characters and no terminator.
\<close>

theorem filename_byte_bounds:
  "command s = chr_F \<longrightarrow>
     (0 \<le> ch s \<and> ch s < 63 \<longrightarrow>
        on_event gw (ByteWritten b) s =
          (raise_event (ByteWritten b) s)
            \<lparr>Filename := (Filename s)[nat (ch s) := b, nat (ch s + 1) := 0], ch := ch s + 1,
             SCTRLB := ACK_RESPONSE\<rparr>) \<and>
     (ch s = 63 \<longrightarrow>
        on_event gw (ByteWritten b) s =
          (raise_event (ByteWritten b) s)
            \<lparr>Filename := (Filename s)[63 := b], ch := 64,
             mem_faults := mem_faults s @ [OutOfRangeStore ''Filename'' 64 0],
             SCTRLB := ACK_RESPONSE\<rparr>) \<and>
     (64 \<le> ch s \<longrightarrow>
        on_event gw (ByteWritten b) s =
          (raise_event (ByteWritten b) s)\<lparr>SCTRLB := NACK_RESPONSE\<rparr>)"
  by (simp add: filename_byte_stored filename_byte_overrun filename_byte_rejected)

theorem filename_byte_bounds_witness:
  "command (run card_absent long_name_events initial_state) = chr_F \<and>
   ch (run card_absent long_name_events initial_state) = 63 \<and>
   SCTRLB (on_event card_absent (ByteWritten 65) (run card_absent long_name_events initial_state)) =
     ACK_RESPONSE \<and>
   Filename (on_event card_absent (ByteWritten 65) (run card_absent long_name_events initial_state)) =
     replicate 64 65 \<and>
   mem_faults (on_event card_absent (ByteWritten 65) (run card_absent long_name_events initial_state)) =
     [OutOfRangeStore ''Filename'' 64 0]"
proof -
  have "(replicate 63 65 @ [0])[63 := 65] = replicate 63 (65::u8) @ [65]"
    by (simp add: list_update_append)
  also have "\<dots> = replicate 64 65"
    by (simp add: replicate_append_same replicate_Cons_numeral)
  finally show ?thesis
    using filename_byte_bounds
        [of "run card_absent long_name_events initial_state" card_absent 65]
      after_63_name_bytes[of card_absent]
    by simp
qed

subsection \<open>Handles at transaction boundaries\<close>

lemma handles_tracked_switch:
  assumes "handles_tracked s"
  shows "handles_tracked (snd (dirList_switch gw s))"
proof (cases "dirList_state s")
  case DIR_STREAM_IDLE
  then show ?thesis using assms
    by (auto simp add: handles_tracked_def dirList_switch_def Let_def close_currentDir_def
        next_entry_def start_entry_def called_def close_file_def isDirectory_def
        openNextFile_def noFile_def entry_file_def split: list.splits)
next
  case DIR_STREAM_SEND_NAME
  then show ?thesis using assms
    by (auto simp add: handles_tracked_def dirList_switch_def Let_def)
next
  case DIR_STREAM_SEND_SIZE
  then show ?thesis using assms
    by (auto simp add: handles_tracked_def dirList_switch_def Let_def close_currentDir_def
        close_currentEntry_def next_entry_def called_def close_file_def
        openNextFile_def noFile_def entry_file_def split: list.splits)
next
  case DIR_STREAM_SEND_TYPE_NEXT
  then show ?thesis using assms
    by (auto simp add: handles_tracked_def dirList_switch_def start_entry_def)
next
  case DIR_STREAM_SEND_END
  then show ?thesis using assms
    by (auto simp add: handles_tracked_def dirList_switch_def)
qed


lemma handles_tracked_cong:
  "dirList_dirOpen t = dirList_dirOpen s \<Longrightarrow> dirList_state t = dirList_state s \<Longrightarrow>
   dirList_currentDir t = dirList_currentDir s \<Longrightarrow>
   dirList_currentEntry t = dirList_currentEntry s \<Longrightarrow>
   handles_tracked t = handles_tracked s"
  by (simp add: handles_tracked_def)

lemma handles_tracked_dirList_read:
  assumes "handles_tracked s"
  shows "handles_tracked (dirList_read gw s)"
proof -
  have "handles_tracked (dirList_read gw s) = handles_tracked (snd (dirList_switch gw s))"
    by (rule handles_tracked_cong) (simp_all add: dirList_read_def case_prod_unfold LightLED_def Let_def)
  then show ?thesis
    using handles_tracked_switch[OF assms] by simp
qed

lemma handles_tracked_DataHostRead:
  assumes "handles_tracked s"
  shows "handles_tracked (DataHostRead gw s)"
proof (cases "command s = chr_L")
  case True
  then have "DataHostRead gw s = dirList_read gw s"
    by (simp add: DataHostRead_def)
  then show ?thesis
    using handles_tracked_dirList_read[OF assms] by simp
next
  case False
  have "handles_tracked (DataHostRead gw s) = handles_tracked s"
    by (rule handles_tracked_cong)
      (use False in \<open>simp_all add: DataHostRead_def volume_read_def size_read_def Let_def
        called_def LightLED_def case_prod_unfold split: option.splits\<close>)
  then show ?thesis using assms by simp
qed

lemma handles_tracked_DataHostWrite:
  assumes "handles_tracked s"
  shows "handles_tracked (snd (DataHostWrite gw s))"
proof -
  have "handles_tracked (snd (DataHostWrite gw s)) = handles_tracked s"
    by (rule handles_tracked_cong)
      (simp_all add: DataHostWrite_def open_myFile_def store_Filename_def Let_def called_def
        LightLED_def)
  then show ?thesis using assms by simp
qed

lemma dirList_cleanup_releases:
  assumes "handles_tracked s"
  shows "\<not> dirList_dirOpen (dirList_cleanup s) \<and> \<not> isOpen (dirList_currentDir (dirList_cleanup s)) \<and>
     \<not> isOpen (dirList_currentEntry (dirList_cleanup s))"
  using assms
  by (auto simp add: handles_tracked_def dirList_cleanup_def Let_def called_def close_file_def)

lemma AddressHostWrite_releases:
  assumes "handles_tracked s"
  shows "\<not> dirList_dirOpen (snd (AddressHostWrite s)) \<and>
     \<not> isOpen (dirList_currentDir (snd (AddressHostWrite s))) \<and>
     \<not> isOpen (dirList_currentEntry (snd (AddressHostWrite s))) \<and>
     dirList_state (snd (AddressHostWrite s)) = DIR_STREAM_IDLE"
proof -
  let ?s2 = "LightLED LEDoff (s\<lparr>command := 0, ch := 0, ptr := 0, rtc_buffer_ptr := 0\<rparr>)"
  have "handles_tracked ?s2 = handles_tracked s"
    by (rule handles_tracked_cong) (simp_all add: LightLED_def)
  then have "handles_tracked ?s2" using assms by simp
  then show ?thesis
    using dirList_cleanup_releases[of ?s2] by (simp add: AddressHostWrite_def Let_def)
qed

lemma Stop_releases:
  assumes "handles_tracked s"
  shows "\<not> dirList_dirOpen (Stop s) \<and> \<not> isOpen (dirList_currentDir (Stop s)) \<and>
     \<not> isOpen (dirList_currentEntry (Stop s)) \<and> dirList_state (Stop s) = DIR_STREAM_IDLE"
proof -
  let ?s3 = "close_myFile (clock_commit (s\<lparr>checknack := False\<rparr>))"
  have "handles_tracked ?s3 = handles_tracked s"
    by (rule handles_tracked_cong)
      (simp_all add: close_myFile_def clock_commit_def LightLED_def called_def)
  then have "handles_tracked ?s3" using assms by simp
  then show ?thesis
    using dirList_cleanup_releases[of ?s3] by (simp add: Stop_def Let_def)
qed

lemma myFile_AddressHostWrite: "myFile (snd (AddressHostWrite s)) = myFile s"
  by (simp add: AddressHostWrite_def Let_def LightLED_def dirList_cleanup_def called_def)

lemma myFile_Stop:
  "myFile (Stop s) =
     (if isOpen (myFile s) \<and>
         (command s = chr_W \<or> command s = chr_R \<or> command s = chr_A \<or> command s = chr_S)
      then close_file (myFile s) else myFile s)"
  by (auto simp add: Stop_def Let_def close_myFile_def clock_commit_def LightLED_def
      dirList_cleanup_def called_def)

lemma on_event_AddressWrite:
  "on_event gw AddressWrite s =
     (snd (AddressHostWrite (raise_event AddressWrite s)))\<lparr>SCTRLB := ACK_RESPONSE\<rparr>"
  by (simp add: on_event_def ISR_def raise_event_def SendResponse_def AddressHostWrite_def Let_def)

lemma on_event_StopCondition:
  "on_event gw StopCondition s = (Stop (raise_event StopCondition s))\<lparr>SCTRLB := COMPTRANS\<rparr>"
  by (simp add: on_event_def ISR_def raise_event_def)

lemma handles_tracked_raise: "handles_tracked (raise_event e s) = handles_tracked s"
  by (rule handles_tracked_cong) (simp_all add: raise_event_def split: bus_event.splits)

lemma handles_tracked_on_event:
  assumes "handles_tracked s"
  shows "handles_tracked (on_event gw e s)"
proof (cases e)
  case AddressWrite
  have "handles_tracked (raise_event AddressWrite s)"
    using assms by (simp add: handles_tracked_raise)
  from AddressHostWrite_releases[OF this] show ?thesis
    unfolding AddressWrite on_event_AddressWrite by (simp add: handles_tracked_def)
next
  case AddressRead
  have "handles_tracked (on_event gw AddressRead s) = handles_tracked s"
    by (rule handles_tracked_cong)
      (simp_all add: on_event_def ISR_def raise_event_def AddressHostRead_def SendResponse_def)
  then show ?thesis using assms AddressRead by simp
next
  case (ByteWritten b)
  let ?r = "raise_event (ByteWritten b) s"
  have r: "handles_tracked ?r" using assms by (simp add: handles_tracked_raise)
  have "on_event gw (ByteWritten b) s =
      SendResponse (fst (DataHostWrite gw ?r)) (snd (DataHostWrite gw ?r))"
    by (simp add: on_event_def ISR_def case_prod_unfold raise_event_def Let_def)
  moreover have "handles_tracked (SendResponse x t) = handles_tracked t" for x t
    by (rule handles_tracked_cong) (simp_all add: SendResponse_def)
  ultimately show ?thesis
    using handles_tracked_DataHostWrite[OF r] ByteWritten by simp
next
  case (ByteReadRequested nack)
  let ?r = "raise_event (ByteReadRequested nack) s"
  have r: "handles_tracked ?r" using assms by (simp add: handles_tracked_raise)
  show ?thesis
  proof (cases "nack \<and> checknack s")
    case True
    have "handles_tracked (?r\<lparr>checknack := False, SCTRLB := RESPONSE\<rparr>) = handles_tracked ?r"
      by (rule handles_tracked_cong) simp_all
    then show ?thesis
      using True r ByteReadRequested by (simp add: read_request_absorbed)
  next
    case False
    have "handles_tracked ((DataHostRead gw ?r)\<lparr>checknack := True, SCTRLB := RESPONSE\<rparr>) =
        handles_tracked (DataHostRead gw ?r)"
      by (rule handles_tracked_cong) simp_all
    then show ?thesis
      using False handles_tracked_DataHostRead[OF r] ByteReadRequested
      by (simp add: read_request_served)
  qed
next
  case StopCondition
  have "handles_tracked (raise_event StopCondition s)"
    using assms by (simp add: handles_tracked_raise)
  from Stop_releases[OF this] show ?thesis
    unfolding StopCondition on_event_StopCondition by (simp add: handles_tracked_def)
qed

lemma handles_tracked_run: "handles_tracked s \<Longrightarrow> handles_tracked (run gw es s)"
  by (induction es arbitrary: s) (simp_all add: handles_tracked_on_event)

lemma handles_tracked_initial: "handles_tracked initial_state"
  by (simp add: handles_tracked_def initial_state_def noFile_def)

text \<open>
  Claim C1. In every state the engine can reach (\<open>handles_tracked\<close>), both a stop and a new
  address match for write leave the directory handle and the entry handle of the
  listing closed. The file handle is different: \<open>AddressHostWrite\<close> leaves \<open>myFile\<close> exactly
  as it was, so a file opened by an unfinished write, read, append or size command stays
  open; and \<open>Stop\<close> closes it only while the command is still one of those four, which it
  no longer is once the address match has cleared \<open>command\<close>.
\<close>

theorem handles_at_transaction_boundary:
  "handles_tracked s \<longrightarrow>
     \<not> isOpen (dirList_currentDir (on_event gw AddressWrite s)) \<and>
     \<not> isOpen (dirList_currentEntry (on_event gw AddressWrite s)) \<and>
     \<not> isOpen (dirList_currentDir (on_event gw StopCondition s)) \<and>
     \<not> isOpen (dirList_currentEntry (on_event gw StopCondition s)) \<and>
     myFile (on_event gw AddressWrite s) = myFile s \<and>
     myFile (on_event gw StopCondition s) =
       (if isOpen (myFile s) \<and>
           (command s = chr_W \<or> command s = chr_R \<or> command s = chr_A \<or> command s = chr_S)
        then close_file (myFile s) else myFile s)"
proof
  assume h: "handles_tracked s"
  have a: "handles_tracked (raise_event AddressWrite s)"
    and b: "handles_tracked (raise_event StopCondition s)"
    using h by (simp_all add: handles_tracked_raise)
  have c: "myFile (raise_event e s) = myFile s" "command (raise_event e s) = command s" for e
    by (simp_all add: raise_event_def split: bus_event.splits)
  have m1: "myFile (on_event gw AddressWrite s) = myFile s"
    by (simp add: on_event_AddressWrite myFile_AddressHostWrite c)
  have "myFile (on_event gw StopCondition s) = myFile (Stop (raise_event StopCondition s))"
    by (simp add: on_event_StopCondition)
  also have "\<dots> =
       (if isOpen (myFile s) \<and>
           (command s = chr_W \<or> command s = chr_R \<or> command s = chr_A \<or> command s = chr_S)
        then close_file (myFile s) else myFile s)"
    by (simp only: myFile_Stop c)
  finally have m2: "myFile (on_event gw StopCondition s) =
       (if isOpen (myFile s) \<and>
           (command s = chr_W \<or> command s = chr_R \<or> command s = chr_A \<or> command s = chr_S)
        then close_file (myFile s) else myFile s)" .
  have d1: "\<not> isOpen (dirList_currentDir (on_event gw AddressWrite s))"
    "\<not> isOpen (dirList_currentEntry (on_event gw AddressWrite s))"
    using AddressHostWrite_releases[OF a] by (simp_all add: on_event_AddressWrite)
  have d2: "\<not> isOpen (dirList_currentDir (on_event gw StopCondition s))"
    "\<not> isOpen (dirList_currentEntry (on_event gw StopCondition s))"
    using Stop_releases[OF b] by (simp_all add: on_event_StopCondition)
  show "\<not> isOpen (dirList_currentDir (on_event gw AddressWrite s)) \<and>
     \<not> isOpen (dirList_currentEntry (on_event gw AddressWrite s)) \<and>
     \<not> isOpen (dirList_currentDir (on_event gw StopCondition s)) \<and>
     \<not> isOpen (dirList_currentEntry (on_event gw StopCondition s)) \<and>
     myFile (on_event gw AddressWrite s) = myFile s \<and>
     myFile (on_event gw StopCondition s) =
       (if isOpen (myFile s) \<and>
           (command s = chr_W \<or> command s = chr_R \<or> command s = chr_A \<or> command s = chr_S)
        then close_file (myFile s) else myFile s)"
    using d1 d2 m1 m2 by blast
qed

theorem handles_at_transaction_boundary_witness:
  "handles_tracked (run (card_with demo_file) write_superseded initial_state) \<and>
   isOpen (myFile (run (card_with demo_file) write_superseded initial_state)) \<and>
   isOpen (myFile (on_event (card_with demo_file) AddressWrite
     (run (card_with demo_file) write_superseded initial_state))) \<and>
   isOpen (myFile (on_event (card_with demo_file) StopCondition
     (on_event (card_with demo_file) AddressWrite
       (run (card_with demo_file) write_superseded initial_state))))"
  using handles_at_transaction_boundary
      [of "run (card_with demo_file) write_superseded initial_state" "card_with demo_file"]
    handles_at_transaction_boundary
      [of "on_event (card_with demo_file) AddressWrite
            (run (card_with demo_file) write_superseded initial_state)" "card_with demo_file"]
    handles_tracked_run [OF handles_tracked_initial, of "card_with demo_file" write_superseded]
  by (simp add: write_superseded_def engine_defs demo_defs Let_def)

subsection \<open>The directory listing\<close>

lemma DataHostRead_L: "command s = chr_L \<Longrightarrow> DataHostRead gw s = dirList_read gw s"
  by (simp add: DataHostRead_def)

lemma list_name_char:
  assumes "command s = chr_L" "dirList_state s = DIR_STREAM_SEND_NAME"
    "unat (dirList_byteCounter s) < strlen (dirList_filenameBuffer s)"
  shows "DataHostRead gw s =
     s\<lparr>dirList_byteCounter := dirList_byteCounter s + 1,
       SDATA := dirList_filenameBuffer s ! unat (dirList_byteCounter s),
       LED := LEDgreen, ptr := 1\<rparr>"
  using assms by (simp add: DataHostRead_L dirList_read_def dirList_switch_def LightLED_def)

lemma list_name_end:
  assumes "command s = chr_L" "dirList_state s = DIR_STREAM_SEND_NAME"
    "\<not> unat (dirList_byteCounter s) < strlen (dirList_filenameBuffer s)"
  shows "DataHostRead gw s =
     s\<lparr>dirList_entrySize :=
         (if isDirectory (dirList_currentEntry s) then 0 else size_of (dirList_currentEntry s)),
       dirList_state := DIR_STREAM_SEND_SIZE, dirList_byteCounter := 0,
       SDATA := 0, LED := LEDgreen, ptr := 1\<rparr>"
  using assms by (simp add: DataHostRead_L dirList_read_def dirList_switch_def LightLED_def)

lemma list_size_byte:
  assumes "command s = chr_L" "dirList_state s = DIR_STREAM_SEND_SIZE"
    "dirList_byteCounter s = 0 \<or> dirList_byteCounter s = 1 \<or> dirList_byteCounter s = 2"
  shows "DataHostRead gw s =
     s\<lparr>dirList_byteCounter := dirList_byteCounter s + 1,
       SDATA := ucast (drop_bit (8 * unat (dirList_byteCounter s)) (dirList_entrySize s)),
       LED := LEDgreen, ptr := 1\<rparr>"
  using assms(1,2) assms(3)
  by (elim disjE)
    (simp_all add: DataHostRead_L dirList_read_def dirList_switch_def LightLED_def Let_def
      word_le_nat_alt)

lemma list_size_last_more:
  assumes "command s = chr_L" "dirList_state s = DIR_STREAM_SEND_SIZE"
    "dirList_byteCounter s = 3" "isOpen (dirList_currentDir s)"
    "remaining (dirList_currentDir s) = e # es"
  shows "DataHostRead gw s =
     s\<lparr>dirList_byteCounter := 4,
       dirList_currentEntry := entry_file e,
       dirList_currentDir := (dirList_currentDir s)\<lparr>remaining := es\<rparr>,
       lib_calls := lib_calls s @ [Call_close, Call_openNextFile],
       dirList_state := DIR_STREAM_SEND_TYPE_NEXT,
       SDATA := ucast (drop_bit 24 (dirList_entrySize s)),
       LED := LEDgreen, ptr := 1\<rparr>"
  using assms
  by (simp add: DataHostRead_L dirList_read_def dirList_switch_def LightLED_def Let_def
      next_entry_def close_currentEntry_def called_def openNextFile_def entry_file_def)

lemma list_size_last_end:
  assumes "command s = chr_L" "dirList_state s = DIR_STREAM_SEND_SIZE"
    "dirList_byteCounter s = 3" "isOpen (dirList_currentDir s)"
    "remaining (dirList_currentDir s) = []"
  shows "DataHostRead gw s =
     s\<lparr>dirList_byteCounter := 4,
       dirList_currentEntry := noFile,
       dirList_currentDir := close_file (dirList_currentDir s),
       lib_calls := lib_calls s @ [Call_close, Call_openNextFile, Call_close],
       dirList_dirOpen := False,
       dirList_state := DIR_STREAM_SEND_END,
       SDATA := ucast (drop_bit 24 (dirList_entrySize s)),
       LED := LEDgreen, ptr := 1\<rparr>"
  using assms
  by (simp add: DataHostRead_L dirList_read_def dirList_switch_def LightLED_def Let_def
      next_entry_def close_currentEntry_def close_currentDir_def called_def openNextFile_def
      noFile_def)

lemma list_type_next:
  assumes "command s = chr_L" "dirList_state s = DIR_STREAM_SEND_TYPE_NEXT"
  shows "DataHostRead gw s =
     s\<lparr>dirList_filenameBuffer := capture_name (dirList_currentEntry s),
       dirList_state := DIR_STREAM_SEND_NAME, dirList_byteCounter := 0,
       SDATA := type_byte (dirList_currentEntry s), LED := LEDgreen, ptr := 1\<rparr>"
  using assms
  by (simp add: DataHostRead_L dirList_read_def dirList_switch_def LightLED_def start_entry_def)

lemma list_end:
  assumes "command s = chr_L" "dirList_state s = DIR_STREAM_SEND_END"
  shows "DataHostRead gw s =
     s\<lparr>dirList_state := DIR_STREAM_IDLE, SDATA := 0xFF, LED := LEDoff, ptr := 0\<rparr>"
  using assms
  by (simp add: DataHostRead_L dirList_read_def dirList_switch_def LightLED_def)

lemma list_idle_failed:
  assumes "command s = chr_L" "dirList_state s = DIR_STREAM_IDLE"
    "\<not> isOpen (dirList_currentEntry s)"
    "\<not> isOpen (SD_open gw (lib_calls s) (Filename s) O_READ) \<or>
     \<not> isdir (SD_open gw (lib_calls s) (Filename s) O_READ) \<or>
     remaining (SD_open gw (lib_calls s) (Filename s) O_READ) = []"
  shows "SDATA (DataHostRead gw s) = 0xFF \<and> listing_done (DataHostRead gw s)"
  using assms
  by (auto simp add: DataHostRead_L dirList_read_def dirList_switch_def LightLED_def Let_def
      next_entry_def close_currentDir_def called_def openNextFile_def isDirectory_def
      close_file_def noFile_def listing_done_def)

lemma list_idle_first:
  assumes "command s = chr_L" "dirList_state s = DIR_STREAM_IDLE"
    "isOpen (SD_open gw (lib_calls s) (Filename s) O_READ)"
    "isdir (SD_open gw (lib_calls s) (Filename s) O_READ)"
    "remaining (SD_open gw (lib_calls s) (Filename s) O_READ) = e # es"
  shows "DataHostRead gw s =
     s\<lparr>dirList_currentDir := (SD_open gw (lib_calls s) (Filename s) O_READ)\<lparr>remaining := es\<rparr>,
       dirList_currentEntry := entry_file e,
       lib_calls := lib_calls s @ [Call_open (Filename s) O_READ, Call_openNextFile],
       dirList_dirOpen := True,
       dirList_filenameBuffer := capture_name (entry_file e),
       dirList_state := DIR_STREAM_SEND_NAME, dirList_byteCounter := 0,
       SDATA := type_byte (entry_file e), LED := LEDgreen, ptr := 1\<rparr>"
  using assms
  by (simp add: DataHostRead_L dirList_read_def dirList_switch_def LightLED_def Let_def
      next_entry_def start_entry_def called_def openNextFile_def isDirectory_def entry_file_def)


lemma c_str_no_zero: "0 \<notin> set (c_str xs)"
  using set_takeWhileD[of 0 "\<lambda>c. c \<noteq> 0" xs] by (auto simp add: c_str_def)

lemma takeWhile_padded: "0 \<notin> set b \<Longrightarrow> takeWhile (\<lambda>c. c \<noteq> (0::u8)) (b @ 0 # ys) = b"
  by (induction b) auto

lemma set_baseName: "set (baseName xs) \<subseteq> set xs"
  by (auto simp add: baseName_def dest: set_takeWhileD)

lemma entry_name_bytes_props:
  "0 \<notin> set (entry_name_bytes e)" "length (entry_name_bytes e) \<le> 12"
proof -
  have "set (entry_name_bytes e) \<subseteq> set (c_str (entry_name e))"
    unfolding entry_name_bytes_def using set_baseName set_take_subset by fastforce
  then show "0 \<notin> set (entry_name_bytes e)"
    using c_str_no_zero by blast
  show "length (entry_name_bytes e) \<le> 12"
    by (simp add: entry_name_bytes_def)
qed

lemma capture_name_entry:
  "capture_name (entry_file e) =
     entry_name_bytes e @ replicate (13 - length (entry_name_bytes e)) 0"
  by (simp add: capture_name_def entry_file_def entry_name_bytes_def Let_def)

lemma strlen_padded:
  assumes "0 \<notin> set b" "length b \<le> 12"
  shows "strlen (b @ replicate (13 - length b) 0) = length b"
proof -
  have n: "13 - length b = Suc (12 - length b)"
    using assms(2) by simp
  show ?thesis
    using assms(1) by (simp add: strlen_def c_str_def n takeWhile_padded)
qed

lemma read_bytes_add:
  "read_bytes gw (m + n) s =
     (fst (read_bytes gw m s) @ fst (read_bytes gw n (snd (read_bytes gw m s))),
      snd (read_bytes gw n (snd (read_bytes gw m s))))"
  by (induction m arbitrary: s) (simp_all add: case_prod_unfold Let_def)

lemma read_bytes_one: "read_bytes gw (Suc 0) s = ([SDATA (DataHostRead gw s)], DataHostRead gw s)"
  by (simp add: Let_def)

lemma u8_of_nat_13: "k < 13 \<Longrightarrow> unat (of_nat k :: u8) = k"
  by (simp add: unat_of_nat)

lemma name_phase:
  assumes "command s = chr_L" "dirList_state s = DIR_STREAM_SEND_NAME"
    "dirList_filenameBuffer s = b @ replicate (13 - length b) 0" "0 \<notin> set b"
    "length b \<le> 12" "dirList_byteCounter s = of_nat k" "k \<le> length b" "n = length b - k"
  shows "fst (read_bytes gw (Suc n) s) = drop k b @ [0] \<and>
     (let t = snd (read_bytes gw (Suc n) s)
      in command t = chr_L \<and> dirList_state t = DIR_STREAM_SEND_SIZE \<and>
         dirList_byteCounter t = 0 \<and>
         dirList_entrySize t =
           (if isDirectory (dirList_currentEntry s) then 0 else size_of (dirList_currentEntry s)) \<and>
         dirList_currentEntry t = dirList_currentEntry s \<and>
         dirList_currentDir t = dirList_currentDir s \<and>
         dirList_dirOpen t = dirList_dirOpen s)"
  using assms
proof (induction n arbitrary: s k)
  case 0
  have len: "strlen (dirList_filenameBuffer s) = length b"
    unfolding "0.prems"(3) using "0.prems"(4,5) by (rule strlen_padded)
  have k: "k = length b" using 0 by simp
  have un: "unat (dirList_byteCounter s) = length b"
    using "0.prems"(5,6) k by (simp add: u8_of_nat_13)
  have "\<not> unat (dirList_byteCounter s) < strlen (dirList_filenameBuffer s)"
    unfolding len un by simp
  then have "DataHostRead gw s =
     s\<lparr>dirList_entrySize :=
         (if isDirectory (dirList_currentEntry s) then 0 else size_of (dirList_currentEntry s)),
       dirList_state := DIR_STREAM_SEND_SIZE, dirList_byteCounter := 0,
       SDATA := 0, LED := LEDgreen, ptr := 1\<rparr>"
    using "0.prems"(1,2) by (rule list_name_end[rotated 2])
  then show ?case
    using k "0.prems"(1) by (simp add: Let_def)
next
  case (Suc n)
  have len: "strlen (dirList_filenameBuffer s) = length b"
    unfolding Suc.prems(3) using Suc.prems(4,5) by (rule strlen_padded)
  have k: "k < length b" using Suc.prems by simp
  have un: "unat (dirList_byteCounter s) = k"
    using Suc.prems(5,6) k by (simp add: u8_of_nat_13)
  have lt: "unat (dirList_byteCounter s) < strlen (dirList_filenameBuffer s)"
    unfolding len un by (rule k)
  let ?s1 = "s\<lparr>dirList_byteCounter := dirList_byteCounter s + 1,
       SDATA := dirList_filenameBuffer s ! unat (dirList_byteCounter s),
       LED := LEDgreen, ptr := 1\<rparr>"
  have s1: "DataHostRead gw s = ?s1"
    using Suc.prems(1,2) lt by (rule list_name_char)
  have byte: "SDATA ?s1 = b ! k"
    using k by (simp add: un Suc.prems(3) nth_append)
  have ih: "fst (read_bytes gw (Suc n) ?s1) = drop (Suc k) b @ [0] \<and>
     (let t = snd (read_bytes gw (Suc n) ?s1)
      in command t = chr_L \<and> dirList_state t = DIR_STREAM_SEND_SIZE \<and>
         dirList_byteCounter t = 0 \<and>
         dirList_entrySize t =
           (if isDirectory (dirList_currentEntry ?s1) then 0
            else size_of (dirList_currentEntry ?s1)) \<and>
         dirList_currentEntry t = dirList_currentEntry ?s1 \<and>
         dirList_currentDir t = dirList_currentDir ?s1 \<and>
         dirList_dirOpen t = dirList_dirOpen ?s1)"
    by (rule Suc.IH) (use Suc.prems k in simp_all)
  have dr: "drop k b = b ! k # drop (Suc k) b"
    using k by (simp add: Cons_nth_drop_Suc)
  have unfold: "read_bytes gw (Suc (Suc n)) s =
      (SDATA ?s1 # fst (read_bytes gw (Suc n) ?s1), snd (read_bytes gw (Suc n) ?s1))"
    using s1 by (simp add: case_prod_unfold Let_def del: read_bytes.simps(2))
      (simp add: case_prod_unfold Let_def)
  show ?case
    unfolding unfold using ih byte dr by (simp add: Let_def del: read_bytes.simps)
qed


lemma entry_file_simps:
  "isDirectory (entry_file e) = entry_isdir e" "size_of (entry_file e) = entry_size e"
  "type_byte (entry_file e) = entry_type e" "isOpen (entry_file e)"
  by (simp_all add: isDirectory_def size_of_def type_byte_def entry_type_def entry_file_def)

lemma name_phase_entry:
  assumes "listing_open s e es" "dirList_state s = DIR_STREAM_SEND_NAME"
    "dirList_byteCounter s = 0" "dirList_filenameBuffer s = capture_name (entry_file e)"
  shows "fst (read_bytes gw (Suc (length (entry_name_bytes e))) s) = entry_name_bytes e @ [0] \<and>
     (let t = snd (read_bytes gw (Suc (length (entry_name_bytes e))) s)
      in listing_open t e es \<and> dirList_state t = DIR_STREAM_SEND_SIZE \<and>
         dirList_byteCounter t = 0 \<and> dirList_entrySize t = entry_listed_size e)"
proof -
  have c: "command s = chr_L" and en: "dirList_currentEntry s = entry_file e"
    using assms(1) by (simp_all add: listing_open_def)
  have buf: "dirList_filenameBuffer s =
      entry_name_bytes e @ replicate (13 - length (entry_name_bytes e)) 0"
    using assms(4) by (simp add: capture_name_entry)
  have "fst (read_bytes gw (Suc (length (entry_name_bytes e))) s) =
      drop 0 (entry_name_bytes e) @ [0] \<and>
     (let t = snd (read_bytes gw (Suc (length (entry_name_bytes e))) s)
      in command t = chr_L \<and> dirList_state t = DIR_STREAM_SEND_SIZE \<and>
         dirList_byteCounter t = 0 \<and>
         dirList_entrySize t =
           (if isDirectory (dirList_currentEntry s) then 0 else size_of (dirList_currentEntry s)) \<and>
         dirList_currentEntry t = dirList_currentEntry s \<and>
         dirList_currentDir t = dirList_currentDir s \<and>
         dirList_dirOpen t = dirList_dirOpen s)"
    by (rule name_phase[OF c assms(2) buf entry_name_bytes_props])
      (simp_all add: assms(3))
  then show ?thesis
    using assms(1) by (simp add: Let_def listing_open_def entry_file_simps entry_listed_size_def)
qed

lemma read_bytes_4:
  "read_bytes gw 4 s =
     (let s1 = DataHostRead gw s; s2 = DataHostRead gw s1; s3 = DataHostRead gw s2;
          s4 = DataHostRead gw s3
      in ([SDATA s1, SDATA s2, SDATA s3, SDATA s4], s4))"
proof -
  have "(4::nat) = Suc (Suc (Suc (Suc 0)))" by simp
  then show ?thesis
    by (simp only: read_bytes.simps Let_def case_prod_unfold fst_conv snd_conv)
qed

lemma size_phase:
  assumes "listing_open s e es" "dirList_state s = DIR_STREAM_SEND_SIZE"
    "dirList_byteCounter s = 0" "dirList_entrySize s = z"
  shows "fst (read_bytes gw 4 s) = le32 z \<and>
     (let t = snd (read_bytes gw 4 s)
      in case es of
           [] \<Rightarrow> command t = chr_L \<and> dirList_state t = DIR_STREAM_SEND_END \<and>
                 \<not> dirList_dirOpen t \<and> \<not> isOpen (dirList_currentDir t) \<and>
                 \<not> isOpen (dirList_currentEntry t)
         | e' # es' \<Rightarrow> listing_open t e' es' \<and> dirList_state t = DIR_STREAM_SEND_TYPE_NEXT)"
proof -
  have c: "command s = chr_L" and d: "isOpen (dirList_currentDir s)"
    "remaining (dirList_currentDir s) = es" "dirList_dirOpen s"
    using assms(1) by (simp_all add: listing_open_def)
  define s1 where "s1 = s\<lparr>dirList_byteCounter := 1, SDATA := ucast z, LED := LEDgreen, ptr := 1\<rparr>"
  define s2 where "s2 = s1\<lparr>dirList_byteCounter := 2, SDATA := ucast (drop_bit 8 z)\<rparr>"
  define s3 where "s3 = s2\<lparr>dirList_byteCounter := 3, SDATA := ucast (drop_bit 16 z)\<rparr>"
  have r1: "DataHostRead gw s = s1"
    using list_size_byte[of s gw] c assms(2,3,4) by (simp add: s1_def)
  have r2: "DataHostRead gw s1 = s2"
    using list_size_byte[of s1 gw] c assms(2,4) by (simp add: s1_def s2_def)
  have r3: "DataHostRead gw s2 = s3"
    using list_size_byte[of s2 gw] c assms(2,4) by (simp add: s1_def s2_def s3_def)
  have f3: "command s3 = chr_L" "dirList_state s3 = DIR_STREAM_SEND_SIZE"
    "dirList_byteCounter s3 = 3" "isOpen (dirList_currentDir s3)"
    "remaining (dirList_currentDir s3) = es" "dirList_entrySize s3 = z" "dirList_dirOpen s3"
    "SDATA s1 = ucast z" "SDATA s2 = ucast (drop_bit 8 z)" "SDATA s3 = ucast (drop_bit 16 z)"
    using c d assms(2,4) by (simp_all add: s1_def s2_def s3_def)
  show ?thesis
  proof (cases es)
    case Nil
    have r4: "DataHostRead gw s3 =
       s3\<lparr>dirList_byteCounter := 4, dirList_currentEntry := noFile,
         dirList_currentDir := close_file (dirList_currentDir s3),
         lib_calls := lib_calls s3 @ [Call_close, Call_openNextFile, Call_close],
         dirList_dirOpen := False, dirList_state := DIR_STREAM_SEND_END,
         SDATA := ucast (drop_bit 24 (dirList_entrySize s3)), LED := LEDgreen, ptr := 1\<rparr>"
      using f3(1-4) f3(5)[unfolded Nil] by (rule list_size_last_end)
    show ?thesis
      unfolding read_bytes_4 Let_def r1 r2 r3 r4
      using f3 Nil by (simp add: le32_def close_file_def noFile_def)
  next
    case (Cons e' es')
    have r4: "DataHostRead gw s3 =
       s3\<lparr>dirList_byteCounter := 4, dirList_currentEntry := entry_file e',
         dirList_currentDir := (dirList_currentDir s3)\<lparr>remaining := es'\<rparr>,
         lib_calls := lib_calls s3 @ [Call_close, Call_openNextFile],
         dirList_state := DIR_STREAM_SEND_TYPE_NEXT,
         SDATA := ucast (drop_bit 24 (dirList_entrySize s3)), LED := LEDgreen, ptr := 1\<rparr>"
      using f3(1-4) f3(5)[unfolded Cons] by (rule list_size_last_more)
    show ?thesis
      unfolding read_bytes_4 Let_def r1 r2 r3 r4
      using f3 Cons by (simp add: le32_def listing_open_def)
  qed
qed


lemma listing_bytes_Cons:
  "listing_bytes (e # es) =
     entry_type e # (entry_name_bytes e @ [0]) @ le32 (entry_listed_size e) @ listing_bytes es"
  by (simp add: listing_bytes_def entry_bytes_def)

lemma length_le32: "length (le32 z) = 4"
  by (simp add: le32_def)

lemma stream_after_type:
  assumes "listing_open s e es" "dirList_state s = DIR_STREAM_SEND_NAME"
    "dirList_byteCounter s = 0" "dirList_filenameBuffer s = capture_name (entry_file e)"
  shows "fst (read_bytes gw (Suc (length (entry_name_bytes e)) + (4 + length (listing_bytes es))) s) =
       (entry_name_bytes e @ [0]) @ le32 (entry_listed_size e) @ listing_bytes es \<and>
     listing_done
       (snd (read_bytes gw (Suc (length (entry_name_bytes e)) + (4 + length (listing_bytes es))) s))"
  using assms
proof (induction es arbitrary: s e)
  case Nil
  define t where "t = snd (read_bytes gw (Suc (length (entry_name_bytes e))) s)"
  have n: "fst (read_bytes gw (Suc (length (entry_name_bytes e))) s) = entry_name_bytes e @ [0]"
    "listing_open t e []" "dirList_state t = DIR_STREAM_SEND_SIZE" "dirList_byteCounter t = 0"
    "dirList_entrySize t = entry_listed_size e"
    using name_phase_entry[OF Nil.prems, of gw] by (simp_all add: Let_def t_def)
  define u where "u = snd (read_bytes gw 4 t)"
  have z: "fst (read_bytes gw 4 t) = le32 (entry_listed_size e)"
    "command u = chr_L" "dirList_state u = DIR_STREAM_SEND_END" "\<not> dirList_dirOpen u"
    "\<not> isOpen (dirList_currentDir u)" "\<not> isOpen (dirList_currentEntry u)"
    using size_phase[OF n(2,3,4,5), of gw] by (simp_all add: Let_def u_def)
  have e: "DataHostRead gw u =
      u\<lparr>dirList_state := DIR_STREAM_IDLE, SDATA := 0xFF, LED := LEDoff, ptr := 0\<rparr>"
    using z(2,3) by (rule list_end)
  have l: "length (listing_bytes []) = Suc 0"
    by (simp add: listing_bytes_def)
  have l': "listing_bytes [] = [0xFF]"
    by (simp add: listing_bytes_def)
  show ?case
    unfolding l read_bytes_add[of gw "Suc (length (entry_name_bytes e))"]
      read_bytes_add[of gw 4 "Suc 0"] read_bytes_one fst_conv snd_conv
      t_def[symmetric] u_def[symmetric] n(1) z(1) e
    using z by (simp add: listing_done_def l')
next
  case (Cons e' es')
  define t where "t = snd (read_bytes gw (Suc (length (entry_name_bytes e))) s)"
  have n: "fst (read_bytes gw (Suc (length (entry_name_bytes e))) s) = entry_name_bytes e @ [0]"
    "listing_open t e (e' # es')" "dirList_state t = DIR_STREAM_SEND_SIZE"
    "dirList_byteCounter t = 0" "dirList_entrySize t = entry_listed_size e"
    using name_phase_entry[OF Cons.prems, of gw] by (simp_all add: Let_def t_def)
  define u where "u = snd (read_bytes gw 4 t)"
  have z: "fst (read_bytes gw 4 t) = le32 (entry_listed_size e)"
    "listing_open u e' es'" "dirList_state u = DIR_STREAM_SEND_TYPE_NEXT"
    using size_phase[OF n(2,3,4,5), of gw] by (simp_all add: Let_def u_def)
  have cu: "command u = chr_L" "dirList_currentEntry u = entry_file e'"
    using z(2) by (simp_all add: listing_open_def)
  define v where "v = DataHostRead gw u"
  have v: "v = u\<lparr>dirList_filenameBuffer := capture_name (dirList_currentEntry u),
       dirList_state := DIR_STREAM_SEND_NAME, dirList_byteCounter := 0,
       SDATA := type_byte (dirList_currentEntry u), LED := LEDgreen, ptr := 1\<rparr>"
    unfolding v_def using cu(1) z(3) by (rule list_type_next)
  have fv: "listing_open v e' es'" "dirList_state v = DIR_STREAM_SEND_NAME"
    "dirList_byteCounter v = 0" "dirList_filenameBuffer v = capture_name (entry_file e')"
    "SDATA v = entry_type e'"
    using z(2) cu by (simp_all add: v listing_open_def entry_file_simps)
  define m where "m = Suc (length (entry_name_bytes e')) + (4 + length (listing_bytes es'))"
  have ih: "fst (read_bytes gw m v) =
       (entry_name_bytes e' @ [0]) @ le32 (entry_listed_size e') @ listing_bytes es' \<and>
     listing_done (snd (read_bytes gw m v))"
    unfolding m_def by (rule Cons.IH[OF fv(1-4)])
  have len: "length (listing_bytes (e' # es')) = Suc 0 + m"
    by (simp add: listing_bytes_Cons m_def length_le32)
  show ?case
    unfolding len read_bytes_add[of gw "Suc (length (entry_name_bytes e))"]
      read_bytes_add[of gw 4 "Suc 0 + m"] read_bytes_add[of gw "Suc 0" m]
      read_bytes_one fst_conv snd_conv
      t_def[symmetric] u_def[symmetric] v_def[symmetric] n(1) z(1)
    using ih fv(5) by (simp add: listing_bytes_Cons)
qed

lemma demo_listing:
  "listing_bytes (remaining demo_dir) =
     [68, 83, 85, 66, 0, 0, 0, 0, 0, 70, 65, 46, 84, 88, 84, 0, 4, 3, 2, 1, 0xFF]"
  by (simp add: listing_bytes_def entry_bytes_def entry_type_def entry_name_bytes_def
      entry_listed_size_def le32_def baseName_def c_str_def demo_dir_def drop_bit_eq_div)

text \<open>
  Claim C6. A list (\<open>'L'\<close>) transaction starts with the cursor idle. If the path cannot
  be opened or is not a directory, the first response byte is 0xFF, the cursor stays
  idle and no handle is left open. If it is a directory, the successive response bytes
  are, for each entry in iteration order, the type byte, the base name of at most 12
  characters, a zero byte and the 4 size bytes least significant first (0 for a
  directory), and a final 0xFF after the last entry (for an empty directory the 0xFF
  alone); after it the cursor is idle again and no handle is open.
\<close>

theorem directory_listing_stream:
  "command s = chr_L \<and> dirList_state s = DIR_STREAM_IDLE \<and> \<not> isOpen (dirList_currentEntry s) \<longrightarrow>
     (let d = SD_open gw (lib_calls s) (Filename s) O_READ
      in (\<not> (isOpen d \<and> isdir d) \<longrightarrow>
            SDATA (DataHostRead gw s) = 0xFF \<and> listing_done (DataHostRead gw s)) \<and>
         (isOpen d \<and> isdir d \<longrightarrow>
            fst (read_bytes gw (length (listing_bytes (remaining d))) s) =
              listing_bytes (remaining d) \<and>
            listing_done (snd (read_bytes gw (length (listing_bytes (remaining d))) s))))"
proof (intro impI, elim conjE)
  assume c: "command s = chr_L" and i: "dirList_state s = DIR_STREAM_IDLE"
    and e: "\<not> isOpen (dirList_currentEntry s)"
  define d where "d = SD_open gw (lib_calls s) (Filename s) O_READ"
  have bad: "SDATA (DataHostRead gw s) = 0xFF \<and> listing_done (DataHostRead gw s)"
    if "\<not> (isOpen d \<and> isdir d)"
    by (rule list_idle_failed[OF c i e]) (use that in \<open>auto simp add: d_def\<close>)
  have good: "fst (read_bytes gw (length (listing_bytes (remaining d))) s) =
        listing_bytes (remaining d) \<and>
      listing_done (snd (read_bytes gw (length (listing_bytes (remaining d))) s))"
    if o: "isOpen d \<and> isdir d"
  proof (cases "remaining d")
    case Nil
    have "SDATA (DataHostRead gw s) = 0xFF \<and> listing_done (DataHostRead gw s)"
      by (rule list_idle_failed[OF c i e]) (use Nil in \<open>simp add: d_def\<close>)
    then show ?thesis
      by (simp add: Nil listing_bytes_def Let_def)
  next
    case (Cons e' es')
    define v where "v = DataHostRead gw s"
    have v: "v = s\<lparr>dirList_currentDir := d\<lparr>remaining := es'\<rparr>,
       dirList_currentEntry := entry_file e',
       lib_calls := lib_calls s @ [Call_open (Filename s) O_READ, Call_openNextFile],
       dirList_dirOpen := True,
       dirList_filenameBuffer := capture_name (entry_file e'),
       dirList_state := DIR_STREAM_SEND_NAME, dirList_byteCounter := 0,
       SDATA := type_byte (entry_file e'), LED := LEDgreen, ptr := 1\<rparr>"
      unfolding v_def d_def
      by (rule list_idle_first[OF c i]) (use o Cons in \<open>simp_all add: d_def\<close>)
    have fv: "listing_open v e' es'" "dirList_state v = DIR_STREAM_SEND_NAME"
      "dirList_byteCounter v = 0" "dirList_filenameBuffer v = capture_name (entry_file e')"
      "SDATA v = entry_type e'"
      using c o by (simp_all add: v listing_open_def entry_file_simps)
    define m where "m = Suc (length (entry_name_bytes e')) + (4 + length (listing_bytes es'))"
    have st: "fst (read_bytes gw m v) =
         (entry_name_bytes e' @ [0]) @ le32 (entry_listed_size e') @ listing_bytes es' \<and>
       listing_done (snd (read_bytes gw m v))"
      unfolding m_def by (rule stream_after_type[OF fv(1-4)])
    have len: "length (listing_bytes (e' # es')) = Suc 0 + m"
      by (simp add: listing_bytes_Cons m_def length_le32)
    show ?thesis
      unfolding Cons len read_bytes_add[of gw "Suc 0" m] read_bytes_one fst_conv snd_conv
        v_def[symmetric]
      using st fv(5) by (simp add: listing_bytes_Cons)
  qed
  show "let d = SD_open gw (lib_calls s) (Filename s) O_READ
      in (\<not> (isOpen d \<and> isdir d) \<longrightarrow>
            SDATA (DataHostRead gw s) = 0xFF \<and> listing_done (DataHostRead gw s)) \<and>
         (isOpen d \<and> isdir d \<longrightarrow>
            fst (read_bytes gw (length (listing_bytes (remaining d))) s) =
              listing_bytes (remaining d) \<and>
            listing_done (snd (read_bytes gw (length (listing_bytes (remaining d))) s)))"
    using bad good unfolding d_def[symmetric] Let_def by blast
qed

theorem directory_listing_stream_witness:
  "command (run (card_with demo_dir) list_events initial_state) = chr_L \<and>
   dirList_state (run (card_with demo_dir) list_events initial_state) = DIR_STREAM_IDLE \<and>
   \<not> isOpen (dirList_currentEntry (run (card_with demo_dir) list_events initial_state)) \<and>
   fst (read_bytes (card_with demo_dir) (length (listing_bytes (remaining demo_dir)))
         (run (card_with demo_dir) list_events initial_state)) =
     [68, 83, 85, 66, 0, 0, 0, 0, 0, 70, 65, 46, 84, 88, 84, 0, 4, 3, 2, 1, 0xFF] \<and>
   listing_done (snd (read_bytes (card_with demo_dir) (length (listing_bytes (remaining demo_dir)))
         (run (card_with demo_dir) list_events initial_state))) \<and>
   SDATA (DataHostRead card_absent (run card_absent list_events initial_state)) = 0xFF \<and>
   listing_done (DataHostRead card_absent (run card_absent list_events initial_state))"
proof -
  define s where "s = run (card_with demo_dir) list_events initial_state"
  define a where "a = run card_absent list_events initial_state"
  have s: "command s = chr_L" "dirList_state s = DIR_STREAM_IDLE"
    "\<not> isOpen (dirList_currentEntry s)"
    "SD_open (card_with demo_dir) (lib_calls s) (Filename s) O_READ = demo_dir"
    by (simp_all add: s_def list_events_def engine_defs demo_defs Let_def)
  have a: "command a = chr_L" "dirList_state a = DIR_STREAM_IDLE"
    "\<not> isOpen (dirList_currentEntry a)"
    "SD_open card_absent (lib_calls a) (Filename a) O_READ = noFile"
    by (simp_all add: a_def list_events_def engine_defs demo_defs Let_def)
  have o: "isOpen demo_dir \<and> isdir demo_dir" "\<not> isOpen noFile"
    by (simp_all add: demo_dir_def noFile_def)
  show ?thesis
    unfolding s_def[symmetric] a_def[symmetric]
    using directory_listing_stream[of s "card_with demo_dir"]
      directory_listing_stream[of a card_absent] s a o
    by (simp add: Let_def demo_listing del: read_bytes.simps)
qed

end
